theory Spec2Isabelle
  imports Complex_Main "HOL-Library.FSet" "HOL-Library.Product_Lexorder"
    "HOL-Library.List_Lexorder" "HOL-Library.Sublist"
begin

section \<open>Text, and what the Python runtime supplies\<close>

text \<open>
  A Python \<open>str\<close> is a sequence of Unicode code points, so text is a list of code points
  here: \<open>len\<close> is \<^const>\<open>length\<close>, comparison is lexicographic on code points.
  ASCII literals are written \<open>asc ''...''\<close>; Cyrillic literals are written out as code
  points (U+0430 is 1072 ... U+044F is 1103, U+0451 is 1105).
\<close>

type_synonym ustr = "nat list"

definition asc :: "string \<Rightarrow> ustr" where
  "asc s = map of_char s"

text \<open>
  The tables of the Unicode database and of the \<open>html\<close> module are not part of the
  repository. The functions of the runtime that consult them are the fields of a record
  that every function of the model takes as its first argument, so each theorem below
  holds for whatever these tables contain.
  \<^item> \<open>uspace\<close>: \<open>str.isspace\<close> of one character, which is also \<open>\s\<close> of \<open>re\<close>;
  \<^item> \<open>udigit\<close>, \<open>udigit_value\<close>: \<open>\d\<close> of \<open>re\<close> and the value \<open>int\<close> gives the digit;
  \<^item> \<open>uword\<close>: \<open>\w\<close> of \<open>re\<close>;
  \<^item> \<open>ufold p c\<close>: character \<open>c\<close> matches the literal \<open>p\<close> under \<open>re.IGNORECASE\<close>;
  \<^item> \<open>ulower\<close>: \<open>str.lower\<close>;
  \<^item> \<open>charrefs\<close>: the replacement of character references that \<open>html.unescape\<close>
    performs on a text that contains \<open>&\<close>;
  \<^item> \<open>int_max_str_digits\<close>: the interpreter's limit on the number of digits that
    \<open>int\<close> converts, if it has one.
\<close>

record pylib =
  uspace :: "nat \<Rightarrow> bool"
  udigit :: "nat \<Rightarrow> bool"
  udigit_value :: "nat \<Rightarrow> nat"
  uword :: "nat \<Rightarrow> bool"
  ufold :: "nat \<Rightarrow> nat \<Rightarrow> bool"
  ulower :: "ustr \<Rightarrow> ustr"
  charrefs :: "ustr \<Rightarrow> ustr"
  int_max_str_digits :: "nat option"

text \<open>\<open>html.unescape(s)\<close>: a text without \<open>&\<close> (code point 38) is returned as it is.\<close>

definition unescape :: "pylib \<Rightarrow> ustr \<Rightarrow> ustr" where
  "unescape L s = (if 38 \<in> set s then charrefs L s else s)"

text \<open>\<open>s.replace(a, b)\<close> for single characters \<open>a\<close> and \<open>b\<close>.\<close>

definition replace_char :: "nat \<Rightarrow> nat \<Rightarrow> ustr \<Rightarrow> ustr" where
  "replace_char a b s = map (\<lambda>c. if c = a then b else c) s"

text \<open>\<open>s.strip(chars)\<close> with the set of characters given as a predicate, and \<open>s.strip()\<close>.\<close>

definition strip_chars :: "(nat \<Rightarrow> bool) \<Rightarrow> ustr \<Rightarrow> ustr" where
  "strip_chars p s = rev (dropWhile p (rev (dropWhile p s)))"

definition strip :: "pylib \<Rightarrow> ustr \<Rightarrow> ustr" where
  "strip L s = strip_chars (uspace L) s"

text \<open>\<open>v in t\<close> for two texts: \<open>v\<close> occurs in \<open>t\<close> as a contiguous piece.\<close>

fun contains :: "ustr \<Rightarrow> ustr \<Rightarrow> bool" where
  "contains [] v = (v = [])"
| "contains (c # cs) v = (prefix v (c # cs) \<or> contains cs v)"

text \<open>\<open>xs[a:b]\<close> of Python, for any two integers.\<close>

definition slice_bound :: "nat \<Rightarrow> int \<Rightarrow> nat" where
  "slice_bound n a = (if a < 0 then nat (max 0 (a + int n)) else min (nat a) n)"

definition py_slice :: "'a list \<Rightarrow> int \<Rightarrow> int \<Rightarrow> 'a list" where
  "py_slice xs a b =
     (let lo = slice_bound (length xs) a; hi = slice_bound (length xs) b
      in take (hi - lo) (drop lo xs))"

section \<open>Regular expressions as \<open>re\<close> matches them\<close>

text \<open>
  A pattern is a term of \<open>rx\<close>, written constructor by constructor after the pattern
  string of the source. \<open>Rep r m None\<close> is the greedy \<open>r{m,}\<close>, \<open>Rep r m (Some n)\<close> the
  greedy \<open>r{m,n}\<close>; \<open>Grp\<close> is the capturing group (no pattern here has more than one);
  \<open>NotAhead c\<close> is \<open>(?!c)\<close> and \<open>NotBehind c\<close> is \<open>(?<!c)\<close> for a one-character class;
  \<open>WordB\<close> is \<open>\b\<close>, \<open>Bol\<close> is \<open>^\<close> and \<open>Eol\<close> is \<open>$\<close> (both without \<open>re.MULTILINE\<close>).
  \<open>CLitI p\<close> is the literal \<open>p\<close> of a pattern compiled with \<open>re.IGNORECASE\<close>, \<open>CIn\<close> a
  set \<open>[...]\<close> of literal characters.
\<close>

datatype cls = CLit nat | CLitI nat | CIn "nat list" | CDigit | CSpace | CWord | CNot cls | COr cls cls

primrec cls_match :: "pylib \<Rightarrow> cls \<Rightarrow> nat \<Rightarrow> bool" where
  "cls_match L (CLit p) c = (c = p)"
| "cls_match L (CLitI p) c = ufold L p c"
| "cls_match L (CIn ps) c = (c \<in> set ps)"
| "cls_match L CDigit c = udigit L c"
| "cls_match L CSpace c = uspace L c"
| "cls_match L CWord c = uword L c"
| "cls_match L (CNot k) c = (\<not> cls_match L k c)"
| "cls_match L (COr k1 k2) c = (cls_match L k1 c \<or> cls_match L k2 c)"

datatype rx = Eps | Ch cls | Seq rx rx | Alt rx rx | Rep rx nat "nat option" | Grp rx
  | NotAhead cls | NotBehind cls | WordB | Bol | Eol

text \<open>A state of the matcher: the position reached and the span of the group, if set.\<close>

type_synonym mstate = "nat \<times> (nat \<times> nat) option"

text \<open>
  \<open>rep f n k m mx\<close>: the greedy repetition of a body whose matcher is \<open>f\<close>, after \<open>k\<close>
  rounds: one more round is tried first, stopping here is tried last. \<open>n\<close> bounds the
  rounds still allowed; every repeated body of this file consumes a character, so the
  length of the text is enough.
\<close>

fun rep :: "(mstate \<Rightarrow> mstate list) \<Rightarrow> nat \<Rightarrow> nat \<Rightarrow> nat \<Rightarrow> nat option \<Rightarrow> mstate \<Rightarrow> mstate list" where
  "rep f 0 k m mx st = (if m \<le> k then [st] else [])"
| "rep f (Suc n) k m mx st =
     (if (case mx of None \<Rightarrow> True | Some b \<Rightarrow> k < b)
      then concat (map (rep f n (Suc k) m mx) (f st)) else [])
     @ (if m \<le> k then [st] else [])"

definition is_word_at :: "pylib \<Rightarrow> ustr \<Rightarrow> nat \<Rightarrow> bool" where
  "is_word_at L s i = (i < length s \<and> uword L (s ! i))"

text \<open>
  \<open>ends r L s st\<close>: every state in which a match of \<open>r\<close> begun in state \<open>st\<close> can end,
  in the order in which the backtracking matcher of \<open>re\<close> tries them. The head of the list
  is the match that \<open>re\<close> reports.
\<close>

primrec ends :: "rx \<Rightarrow> pylib \<Rightarrow> ustr \<Rightarrow> mstate \<Rightarrow> mstate list" where
  "ends Eps L s st = [st]"
| "ends (Ch k) L s st =
     (if fst st < length s \<and> cls_match L k (s ! fst st) then [(Suc (fst st), snd st)] else [])"
| "ends (Seq a b) L s st = concat (map (ends b L s) (ends a L s st))"
| "ends (Alt a b) L s st = ends a L s st @ ends b L s st"
| "ends (Rep r m mx) L s st = rep (ends r L s) (length s) 0 m mx st"
| "ends (Grp r) L s st = map (\<lambda>e. (fst e, Some (fst st, fst e))) (ends r L s st)"
| "ends (NotAhead k) L s st =
     (if fst st < length s \<and> cls_match L k (s ! fst st) then [] else [st])"
| "ends (NotBehind k) L s st =
     (if 0 < fst st \<and> fst st \<le> length s \<and> cls_match L k (s ! (fst st - 1)) then [] else [st])"
| "ends WordB L s st =
     (if (0 < fst st \<and> is_word_at L s (fst st - 1)) \<noteq> is_word_at L s (fst st) then [st] else [])"
| "ends Bol L s st = (if fst st = 0 then [st] else [])"
| "ends Eol L s st =
     (if fst st = length s \<or> (Suc (fst st) = length s \<and> s ! fst st = 10) then [st] else [])"

text \<open>Shorthands: a literal string, with and without \<open>re.IGNORECASE\<close>; \<open>?\<close>, \<open>*\<close>, \<open>+\<close>.\<close>

definition lits :: "ustr \<Rightarrow> rx" where
  "lits w = foldr (\<lambda>c r. Seq (Ch (CLit c)) r) w Eps"

definition litsI :: "ustr \<Rightarrow> rx" where
  "litsI w = foldr (\<lambda>c r. Seq (Ch (CLitI c)) r) w Eps"

definition seqs :: "rx list \<Rightarrow> rx" where
  "seqs rs = foldr Seq rs Eps"

definition Opt :: "rx \<Rightarrow> rx" where "Opt r = Rep r 0 (Some 1)"
definition Star :: "rx \<Rightarrow> rx" where "Star r = Rep r 0 None"
definition Plus :: "rx \<Rightarrow> rx" where "Plus r = Rep r 1 None"

text \<open>A match: where it starts, where it ends, and the span of the group.\<close>

type_synonym rmatch = "nat \<times> nat \<times> (nat \<times> nat) option"

definition match_at :: "pylib \<Rightarrow> rx \<Rightarrow> ustr \<Rightarrow> nat \<Rightarrow> rmatch option" where
  "match_at L r s i =
     (case ends r L s (i, None) of [] \<Rightarrow> None | e # _ \<Rightarrow> Some (i, fst e, snd e))"

text \<open>The leftmost match that starts at position \<open>i\<close> or later (\<open>n\<close> later starts are tried).\<close>

fun search_from :: "pylib \<Rightarrow> rx \<Rightarrow> ustr \<Rightarrow> nat \<Rightarrow> nat \<Rightarrow> rmatch option" where
  "search_from L r s 0 i = match_at L r s i"
| "search_from L r s (Suc n) i =
     (case match_at L r s i of None \<Rightarrow> search_from L r s n (Suc i) | Some m \<Rightarrow> Some m)"

definition re_search :: "pylib \<Rightarrow> rx \<Rightarrow> ustr \<Rightarrow> rmatch option" where
  "re_search L r s = search_from L r s (length s) 0"

text \<open>\<open>m.group(0)\<close> and \<open>m.group(1)\<close>.\<close>

definition group0 :: "ustr \<Rightarrow> rmatch \<Rightarrow> ustr" where
  "group0 s m = take (fst (snd m) - fst m) (drop (fst m) s)"

definition group1 :: "ustr \<Rightarrow> rmatch \<Rightarrow> ustr" where
  "group1 s m = (case snd (snd m) of None \<Rightarrow> [] | Some (a, b) \<Rightarrow> take (b - a) (drop a s))"

text \<open>
  \<open>re.finditer\<close>: the matches from left to right, each search starting where the previous
  match ended (one character further after an empty match). \<open>n\<close> bounds the number of
  matches.
\<close>

fun finditer_from :: "pylib \<Rightarrow> rx \<Rightarrow> ustr \<Rightarrow> nat \<Rightarrow> nat \<Rightarrow> rmatch list" where
  "finditer_from L r s 0 i = []"
| "finditer_from L r s (Suc n) i =
     (case search_from L r s (length s - i) i of
        None \<Rightarrow> []
      | Some m \<Rightarrow>
          m # (if fst m < fst (snd m) then finditer_from L r s n (fst (snd m))
               else if fst m < length s then finditer_from L r s n (Suc (fst m))
               else []))"

definition re_finditer :: "pylib \<Rightarrow> rx \<Rightarrow> ustr \<Rightarrow> rmatch list" where
  "re_finditer L r s = finditer_from L r s (Suc (length s)) 0"

text \<open>
  \<open>re.sub\<close> with a replacement template: literal text and \<open>\1\<close>. The text between the
  matches is copied, each match is replaced by the expanded template.
\<close>

datatype tpl = TLit ustr | TGrp

fun expand :: "tpl list \<Rightarrow> ustr \<Rightarrow> rmatch \<Rightarrow> ustr" where
  "expand [] s m = []"
| "expand (TLit w # ts) s m = w @ expand ts s m"
| "expand (TGrp # ts) s m = group1 s m @ expand ts s m"

fun sub_from :: "pylib \<Rightarrow> rx \<Rightarrow> tpl list \<Rightarrow> ustr \<Rightarrow> nat \<Rightarrow> nat \<Rightarrow> ustr" where
  "sub_from L r t s 0 i = drop i s"
| "sub_from L r t s (Suc n) i =
     (case search_from L r s (length s - i) i of
        None \<Rightarrow> drop i s
      | Some m \<Rightarrow>
          take (fst m - i) (drop i s) @ expand t s m @
          (if fst m < fst (snd m) then sub_from L r t s n (fst (snd m))
           else if fst m < length s then s ! fst m # sub_from L r t s n (Suc (fst m))
           else []))"

definition re_sub :: "pylib \<Rightarrow> rx \<Rightarrow> tpl list \<Rightarrow> ustr \<Rightarrow> ustr" where
  "re_sub L r t s = sub_from L r t s (Suc (length s)) 0"

text \<open>\<open>re.sub(r"\s+", " ", s)\<close>, which most functions below begin with.\<close>

definition collapse_ws :: "pylib \<Rightarrow> ustr \<Rightarrow> ustr" where
  "collapse_ws L s = re_sub L (Plus (Ch CSpace)) [TLit [32]] s"

text \<open>
  \<open>int(digits)\<close> for a text of digits: the empty text raises \<open>ValueError\<close>, and so does a
  text longer than the interpreter's limit on the digits of an integer, when it has one.
\<close>

definition py_int :: "pylib \<Rightarrow> ustr \<Rightarrow> int option" where
  "py_int L ds =
     (if ds = [] then None
      else if (case int_max_str_digits L of None \<Rightarrow> False | Some b \<Rightarrow> b < length ds) then None
      else Some (int (foldl (\<lambda>a c. 10 * a + udigit_value L c) 0 ds)))"

section \<open>Prices\<close>

text \<open>
  The pattern strings of \<open>_first_price\<close> and \<open>_prices_from_text\<close>:
  \<^verbatim>\<open>price_pat = (\d{1,3}(?:[\s\u00a0\u202f]\d{3})+|\d{2,k})(?:[,.]\d{1,2})?\<close> with \<open>k\<close> 6 or 7,
  \<^verbatim>\<open>rub_pat = (?:R|rub\.?|r\.?)(?!\w)\<close> where R is U+20BD (8381, the rouble sign) and
  \<open>rub\<close>, \<open>r\<close> stand for the Cyrillic letters U+0440 U+0443 U+0431
  (1088, 1091, 1073), matched with \<open>re.IGNORECASE\<close>.
\<close>

definition sep_cls :: cls where
  "sep_cls = COr CSpace (COr (CLit 160) (CLit 8239))"

definition grouped_digits :: rx where
  "grouped_digits =
     Seq (Rep (Ch CDigit) 1 (Some 3)) (Plus (Seq (Ch sep_cls) (Rep (Ch CDigit) 3 (Some 3))))"

definition price_pat :: "nat \<Rightarrow> rx" where
  "price_pat k =
     Seq (Grp (Alt grouped_digits (Rep (Ch CDigit) 2 (Some k))))
         (Opt (Seq (Ch (COr (CLit 44) (CLit 46))) (Rep (Ch CDigit) 1 (Some 2))))"

definition rub_pat :: rx where
  "rub_pat =
     Seq (Alt (Ch (CLit 8381))
            (Alt (Seq (litsI [1088, 1091, 1073]) (Opt (Ch (CLit 46))))
                 (Seq (Ch (CLitI 1088)) (Opt (Ch (CLit 46))))))
         (NotAhead CWord)"

text \<open>\<^verbatim>\<open>(?<!\d){price_pat}\s*{rub_pat}\<close>\<close>

definition rx_price_then_rub :: rx where
  "rx_price_then_rub =
     Seq (NotBehind CDigit) (Seq (price_pat 6) (Seq (Star (Ch CSpace)) rub_pat))"

text \<open>\<^verbatim>\<open>{rub_pat}\s*{price_pat}(?!\d)\<close>\<close>

definition rx_rub_then_price :: rx where
  "rx_rub_then_price =
     Seq rub_pat (Seq (Star (Ch CSpace)) (Seq (price_pat 6) (NotAhead CDigit)))"

text \<open>\<^verbatim>\<open>\d{1,3}(?:[\s\u00a0\u202f]\d{3})+|\d{4,}\<close>\<close>

definition rx_bare_number :: rx where
  "rx_bare_number = Alt grouped_digits (Rep (Ch CDigit) 4 None)"

text \<open>\<^verbatim>\<open>\b(\d{2,6})\b\<close>\<close>

definition rx_short_number :: rx where
  "rx_short_number = Seq WordB (Seq (Grp (Rep (Ch CDigit) 2 (Some 6))) WordB)"

text \<open>
  The first three lines of both functions: unescape, turn U+00A0, U+202F and U+2009 into
  spaces, collapse whitespace and strip.
\<close>

definition price_text :: "pylib \<Rightarrow> ustr \<Rightarrow> ustr" where
  "price_text L text =
     strip L (collapse_ws L
       (replace_char 8201 32 (replace_char 8239 32 (replace_char 160 32 (unescape L text)))))"

text \<open>\<open>re.sub(r"\D", "", w)\<close> keeps the characters of \<open>w\<close> that \<open>\d\<close> matches.\<close>

definition digits_of :: "pylib \<Rightarrow> ustr \<Rightarrow> ustr" where
  "digits_of L w = re_sub L (Ch (CNot CDigit)) [] w"

definition in_price_range :: "int \<Rightarrow> bool" where
  "in_price_range v = (10 \<le> v \<and> v \<le> 1000000)"

text \<open>
  \<open>val = int(digits) if digits else 0\<close> followed by the range test, inside
  \<open>try ... except: pass\<close>: the value that the step returns, or \<open>None\<close> when control
  falls through to the next step.
\<close>

definition price_near_currency :: "pylib \<Rightarrow> ustr \<Rightarrow> rmatch option \<Rightarrow> int option" where
  "price_near_currency L t mo =
     (case mo of
        None \<Rightarrow> None
      | Some m \<Rightarrow>
          (let digits = digits_of L (group1 t m) in
           case (if digits \<noteq> [] then py_int L digits else Some 0) of
             None \<Rightarrow> None
           | Some val \<Rightarrow> if in_price_range val then Some val else None))"

text \<open>The loop over \<open>re.finditer\<close> in \<open>_first_price\<close>: the first number in range.\<close>

fun first_bare_number :: "pylib \<Rightarrow> ustr \<Rightarrow> rmatch list \<Rightarrow> int option" where
  "first_bare_number L t [] = None"
| "first_bare_number L t (m # ms) =
     (let digits = digits_of L (group0 t m) in
      if digits = [] then first_bare_number L t ms
      else (case py_int L digits of
              None \<Rightarrow> first_bare_number L t ms
            | Some val \<Rightarrow> if in_price_range val then Some val else first_bare_number L t ms))"

definition first_price :: "pylib \<Rightarrow> ustr \<Rightarrow> int" where
  "first_price L text =
     (if text = [] then 0
      else
        let t = price_text L text in
        case price_near_currency L t (re_search L rx_price_then_rub t) of
          Some v \<Rightarrow> v
        | None \<Rightarrow>
           (case price_near_currency L t (re_search L rx_rub_then_price t) of
              Some v \<Rightarrow> v
            | None \<Rightarrow>
               (case first_bare_number L t (re_finditer L rx_bare_number t) of
                  Some v \<Rightarrow> v
                | None \<Rightarrow>
                   (case re_search L rx_short_number t of
                      None \<Rightarrow> 0
                    | Some m \<Rightarrow> (case py_int L (group1 t m) of None \<Rightarrow> 0 | Some v \<Rightarrow> v)))))"

text \<open>
  \<open>_PRICE_CONTEXT_SKIP\<close>. The source writes the pattern as a raw string with doubled
  backslashes,
  \<^verbatim>\<open>r"(?:/\\s*mes|v\\s*mesyac|v\\s*mes|\\bmes\\b|kredit|rassroch|bonus|ball|keshb|cashback)"\<close>
  (the Cyrillic words transliterated here), so \<open>\\\<close> is a literal backslash (92) and the
  \<open>s*\<close> and \<open>b\<close> after it are the letters: the first alternative is a slash, a backslash,
  any number of letters \<open>s\<close>, and the three Cyrillic letters.
\<close>

definition rx_context_skip :: rx where
  "rx_context_skip =
     Alt (Seq (Ch (CLit 47)) (Seq (Ch (CLit 92)) (Seq (Star (Ch (CLitI 115)))
            (litsI [1084, 1077, 1089]))))
    (Alt (Seq (Ch (CLitI 1074)) (Seq (Ch (CLit 92)) (Seq (Star (Ch (CLitI 115)))
            (litsI [1084, 1077, 1089, 1103, 1094]))))
    (Alt (Seq (Ch (CLitI 1074)) (Seq (Ch (CLit 92)) (Seq (Star (Ch (CLitI 115)))
            (litsI [1084, 1077, 1089]))))
    (Alt (Seq (Ch (CLit 92)) (Seq (Ch (CLitI 98)) (Seq (litsI [1084, 1077, 1089])
            (Seq (Ch (CLit 92)) (Ch (CLitI 98))))))
    (Alt (litsI [1082, 1088, 1077, 1076, 1080, 1090])
    (Alt (litsI [1088, 1072, 1089, 1089, 1088, 1086, 1095])
    (Alt (litsI [1073, 1086, 1085, 1091, 1089])
    (Alt (litsI [1073, 1072, 1083, 1083])
    (Alt (litsI [1082, 1101, 1096, 1073])
         (litsI (asc ''cashback''))))))))))"

text \<open>\<^verbatim>\<open>{price_pat}\s*{rub_pat}\<close> of \<open>_prices_from_text\<close>, where \<open>price_pat\<close> allows 7 digits.\<close>

definition rx_price_with_rub :: rx where
  "rx_price_with_rub = Seq (price_pat 7) (Seq (Star (Ch CSpace)) rub_pat)"

fun prices_of_matches :: "pylib \<Rightarrow> ustr \<Rightarrow> rmatch list \<Rightarrow> int list" where
  "prices_of_matches L t [] = []"
| "prices_of_matches L t (m # ms) =
     (let context = take (min (length t) (fst (snd m) + 16) - (fst m - 16)) (drop (fst m - 16) t) in
      if re_search L rx_context_skip context \<noteq> None then prices_of_matches L t ms
      else
        let digits = digits_of L (group1 t m) in
        if digits = [] then prices_of_matches L t ms
        else (case py_int L digits of
                None \<Rightarrow> prices_of_matches L t ms
              | Some val \<Rightarrow>
                  if in_price_range val then val # prices_of_matches L t ms
                  else prices_of_matches L t ms))"

definition prices_from_text :: "pylib \<Rightarrow> ustr \<Rightarrow> int list" where
  "prices_from_text L text =
     (if text = [] then []
      else
        let t = price_text L text in
        if t = [] then [] else prices_of_matches L t (re_finditer L rx_price_with_rub t))"

text \<open>
  The argument of \<open>_normalize_price\<close> is any Python value: \<open>None\<close>, a \<open>bool\<close>, an \<open>int\<close>, a
  \<open>float\<close>, or another object, which the function reads through \<open>str(value)\<close> (a \<open>str\<close> is
  its own \<open>str\<close>). A finite float is \<open>m * 2 ^ e\<close>; \<open>int\<close> of it truncates towards zero, and
  \<open>int\<close> of an infinity or a NaN raises.
\<close>

datatype pyfloat = Finite int int | Infinite | NaN

datatype pyval = PNone | PBool bool | PInt int | PFloat pyfloat | PObj ustr

definition int_of_float :: "pyfloat \<Rightarrow> int option" where
  "int_of_float f =
     (case f of
        Finite m e \<Rightarrow>
          Some (if 0 \<le> e then m * 2 ^ nat e
                else if 0 \<le> m then m div 2 ^ nat (- e)
                else - ((- m) div 2 ^ nat (- e)))
      | Infinite \<Rightarrow> None
      | NaN \<Rightarrow> None)"

definition price_gate :: "int \<Rightarrow> int" where
  "price_gate n = (if n \<le> 0 \<or> n > 1000000 then 0 else n)"

definition normalize_price :: "pylib \<Rightarrow> pyval \<Rightarrow> int" where
  "normalize_price L v =
     (case v of
        PNone \<Rightarrow> 0
      | PBool b \<Rightarrow> 0
      | PInt i \<Rightarrow> price_gate i
      | PFloat f \<Rightarrow> price_gate (case int_of_float f of None \<Rightarrow> 0 | Some i \<Rightarrow> i)
      | PObj s \<Rightarrow> price_gate (first_price L s))"

section \<open>Titles\<close>

text \<open>
  The Cyrillic words of the patterns, as code points: \<open>smartfon\<close>, \<open>mobilnyi\<close>,
  \<open>sotovyi\<close>, \<open>telefon\<close> (the four prefixes are the first, the second and the third
  each followed by a space and the fourth, and the fourth alone), \<open>gb\<close> in lower case,
  and the texts \<open>(b/u\<close> and \<open>(b/u)\<close>.
\<close>

definition w_smartfon :: ustr where
  "w_smartfon = [1089, 1084, 1072, 1088, 1090, 1092, 1086, 1085]"

definition w_mobilnyi :: ustr where
  "w_mobilnyi = [1084, 1086, 1073, 1080, 1083, 1100, 1085, 1099, 1081]"

definition w_sotovyi :: ustr where
  "w_sotovyi = [1089, 1086, 1090, 1086, 1074, 1099, 1081]"

definition w_telefon :: ustr where
  "w_telefon = [1090, 1077, 1083, 1077, 1092, 1086, 1085]"

definition w_gb :: ustr where
  "w_gb = [1075, 1073]"

definition w_used_open :: ustr where
  "w_used_open = [40, 1073, 47, 1091]"

definition w_used :: ustr where
  "w_used = [40, 1073, 47, 1091, 41]"

text \<open>The characters that \<open>_clean_title\<close> deletes: U+200B to U+200F, U+202A to U+202C, U+2060.\<close>

definition invisible_chars :: "nat list" where
  "invisible_chars = [8203, 8204, 8205, 8206, 8207, 8234, 8235, 8236, 8288]"

text \<open>\<^verbatim>\<open>^(smartfon|mobilnyi telefon|sotovyi telefon|telefon)\s+\<close> with \<open>re.I\<close>\<close>

definition rx_prefix :: rx where
  "rx_prefix =
     seqs [Bol,
           Grp (Alt (litsI w_smartfon)
               (Alt (seqs [litsI w_mobilnyi, Ch (CLit 32), litsI w_telefon])
               (Alt (seqs [litsI w_sotovyi, Ch (CLit 32), litsI w_telefon])
                    (litsI w_telefon)))),
           Plus (Ch CSpace)]"

text \<open>\<^verbatim>\<open>,?\s*(?<!\()b/u\b\<close> with \<open>re.I\<close>\<close>

definition rx_used :: rx where
  "rx_used =
     seqs [Opt (Ch (CLit 44)), Star (Ch CSpace), NotBehind (CLit 40),
           Ch (CLitI 1073), Ch (CLit 47), Ch (CLitI 1091), WordB]"

text \<open>\<^verbatim>\<open>\d+\s*/\s*\d+\s*gb\<close> with \<open>re.I\<close>, the memory size that two patterns contain\<close>

definition rx_mem :: rx where
  "rx_mem =
     seqs [Plus (Ch CDigit), Star (Ch CSpace), Ch (CLit 47), Star (Ch CSpace),
           Plus (Ch CDigit), Star (Ch CSpace), litsI w_gb]"

text \<open>\<^verbatim>\<open>,\s*(\d+\s*/\s*\d+\s*gb)\<close> with \<open>re.I\<close>\<close>

definition rx_comma_mem :: rx where
  "rx_comma_mem = seqs [Ch (CLit 44), Star (Ch CSpace), Grp rx_mem]"

text \<open>\<^verbatim>\<open>\s+GB\<close> with \<open>re.I\<close> (the pattern has the capital letters U+0413 U+0411)\<close>

definition rx_gb :: rx where
  "rx_gb = seqs [Plus (Ch CSpace), litsI [1043, 1041]]"

text \<open>\<open>t.replace(a, b)\<close> for a non-empty text \<open>a\<close>: the occurrences from left to right.\<close>

function replace_str :: "ustr \<Rightarrow> ustr \<Rightarrow> ustr \<Rightarrow> ustr" where
  "replace_str a b [] = []"
| "replace_str a b (c # cs) =
     (if a \<noteq> [] \<and> prefix a (c # cs) then b @ replace_str a b (drop (length a) (c # cs))
      else c # replace_str a b cs)"
  by pat_completeness auto
termination
  by (relation "measure (\<lambda>(a, b, t). length t)") auto

text \<open>\<open>u.rsplit(" ", 1)[0]\<close>: what precedes the last space of \<open>u\<close>, or \<open>u\<close> without a space.\<close>

definition rsplit_head :: "ustr \<Rightarrow> ustr" where
  "rsplit_head u = (if 32 \<in> set u then rev (tl (dropWhile (\<lambda>c. c \<noteq> 32) (rev u))) else u)"

text \<open>\<open>_clean_title\<close> up to its last step, and the last step, which limits the length.\<close>

definition clean_title_body :: "pylib \<Rightarrow> ustr \<Rightarrow> ustr" where
  "clean_title_body L text =
     (let t = unescape L text;
          t = replace_char 160 32 t;
          t = re_sub L (Ch (CIn invisible_chars)) [] t;
          t = collapse_ws L (strip_chars (\<lambda>c. c \<in> set [32, 44, 59, 160]) t);
          t = re_sub L rx_prefix [] t;
          t = re_sub L rx_used [TLit (32 # w_used)] t;
          t = re_sub L rx_comma_mem [TLit [32], TGrp] t;
          t = re_sub L rx_gb [TLit [32, 1043, 1041]] t
      in if contains t w_used_open \<and> \<not> contains t w_used
         then replace_str w_used_open w_used t else t)"

definition limit_title :: "ustr \<Rightarrow> ustr" where
  "limit_title t = (if length t > 160 then rsplit_head (take 160 t) else t)"

definition clean_title :: "pylib \<Rightarrow> ustr \<Rightarrow> ustr" where
  "clean_title L text = limit_title (clean_title_body L text)"

text \<open>
  \<open>_clean_ali_title\<close>. Its patterns: \<^verbatim>\<open>\b\d+\s*/\s*\d+\s*gb\b\<close> with \<open>re.I\<close>,
  \<^verbatim>\<open>\s*\(b/u\)\s*$\<close>, \<^verbatim>\<open>\s+\(\<close> and \<^verbatim>\<open>\(\s+\<close>.
\<close>

definition rx_mem_word :: rx where
  "rx_mem_word = seqs [WordB, rx_mem, WordB]"

definition rx_used_at_end :: rx where
  "rx_used_at_end = seqs [Star (Ch CSpace), lits w_used, Star (Ch CSpace), Eol]"

definition clean_ali_title :: "pylib \<Rightarrow> ustr \<Rightarrow> ustr" where
  "clean_ali_title L text =
     (let t = clean_title L text;
          mems = map (group0 t) (re_finditer L rx_mem_word t);
          t = (if length mems > 1 then
                 (let first = hd mems;
                      t2 = strip L (re_sub L rx_mem_word [] t);
                      t2 = collapse_ws L t2;
                      t2 = (if contains t2 w_used
                            then re_sub L rx_used_at_end [TLit ([32] @ first @ [32] @ w_used)] t2
                            else strip L (t2 @ [32] @ first))
                  in strip L (collapse_ws L t2))
               else t);
          t = strip L (collapse_ws L t);
          t = re_sub L (seqs [Plus (Ch CSpace), Ch (CLit 40)]) [TLit [32, 40]] t
      in re_sub L (seqs [Ch (CLit 40), Plus (Ch CSpace)]) [TLit [40]] t)"

section \<open>Query tokens\<close>

text \<open>
  \<open>_QUERY_STOPWORDS\<close>, twenty-one Russian function words, and \<open>_TOKEN_SYNONYMS\<close>, which
  pairs the Latin brand names with their Cyrillic spellings.
\<close>

definition QUERY_STOPWORDS :: "ustr list" where
  "QUERY_STOPWORDS =
     [[1080], [1074], [1074, 1086], [1085, 1072], [1076, 1083, 1103], [1087, 1086], [1089],
      [1089, 1086], [1086, 1090], [1076, 1086], [1072], [1080, 1083, 1080], [1091], [1082],
      [1080, 1079], [1073, 1077, 1079], [1095, 1090, 1086], [1101, 1090, 1086],
      [1082, 1072, 1082], [1090, 1072, 1082], [1078, 1077]]"

definition w_aifon :: ustr where "w_aifon = [1072, 1081, 1092, 1086, 1085]"
definition w_aipad :: ustr where "w_aipad = [1072, 1081, 1087, 1072, 1076]"
definition w_eppl :: ustr where "w_eppl = [1101, 1087, 1087, 1083]"
definition w_epl :: ustr where "w_epl = [1101, 1087, 1083]"
definition w_samsung :: ustr where "w_samsung = [1089, 1072, 1084, 1089, 1091, 1085, 1075]"
definition w_syaomi :: ustr where "w_syaomi = [1089, 1103, 1086, 1084, 1080]"
definition w_huavei :: ustr where "w_huavei = [1093, 1091, 1072, 1074, 1077, 1081]"
definition w_realmi :: ustr where "w_realmi = [1088, 1077, 1072, 1083, 1084, 1080]"

definition TOKEN_SYNONYMS :: "(ustr \<times> ustr list) list" where
  "TOKEN_SYNONYMS =
     [(w_aifon, [asc ''iphone'']), (asc ''iphone'', [w_aifon]),
      (w_aipad, [asc ''ipad'']), (asc ''ipad'', [w_aipad]),
      (w_eppl, [asc ''apple'']), (w_epl, [asc ''apple'']), (asc ''apple'', [w_eppl, w_epl]),
      (w_samsung, [asc ''samsung'']), (asc ''samsung'', [w_samsung]),
      (w_syaomi, [asc ''xiaomi'']), (asc ''xiaomi'', [w_syaomi]),
      (w_huavei, [asc ''huawei'']), (asc ''huawei'', [w_huavei]),
      (w_realmi, [asc ''realme'']), (asc ''realme'', [w_realmi])]"

text \<open>\<open>q.split(" ")\<close>: the pieces between the spaces, empty pieces included.\<close>

fun split_sp :: "ustr \<Rightarrow> ustr \<Rightarrow> ustr list" where
  "split_sp acc [] = [rev acc]"
| "split_sp acc (c # cs) = (if c = 32 then rev acc # split_sp [] cs else split_sp (c # acc) cs)"

fun keep_tokens :: "ustr list \<Rightarrow> ustr list \<Rightarrow> ustr list" where
  "keep_tokens seen [] = []"
| "keep_tokens seen (t # ts) =
     (if t \<in> set QUERY_STOPWORDS then keep_tokens seen ts
      else if length t \<le> 1 then keep_tokens seen ts
      else if t \<in> set seen then keep_tokens seen ts
      else t # keep_tokens (t # seen) ts)"

text \<open>In \<open>_query_tokens\<close> the pattern \<^verbatim>\<open>[^\w\s]+\<close> is replaced by a space.\<close>

definition query_tokens :: "pylib \<Rightarrow> ustr \<Rightarrow> ustr list" where
  "query_tokens L query =
     (let q = replace_char 1105 1077 (ulower L (strip L query));
          q = re_sub L (Plus (Ch (CNot (COr CWord CSpace)))) [TLit [32]] q;
          q = strip L (collapse_ws L q);
          raw = filter (\<lambda>t. t \<noteq> []) (split_sp [] q)
      in take 10 (keep_tokens [] raw))"

text \<open>
  \<open>int(n * 0.6)\<close> for the length \<open>n\<close> of a list, in the arithmetic of IEEE doubles: \<open>0.6\<close>
  is the double \<open>5404319552844595 / 2 ^ 53\<close>, \<open>float(n)\<close> and the product are rounded to
  53 significant bits, ties to even, and \<open>int\<close> truncates.
\<close>

fun bitlen :: "nat \<Rightarrow> nat" where
  "bitlen n = (if n = 0 then 0 else Suc (bitlen (n div 2)))"

declare bitlen.simps [simp del]

definition round53 :: "nat \<Rightarrow> nat" where
  "round53 p =
     (if p < 2 ^ 53 then p
      else let s = bitlen p - 53; q = p div 2 ^ s; r = p mod 2 ^ s; h = 2 ^ (s - 1)
           in (if h < r \<or> (r = h \<and> odd q) then q + 1 else q) * 2 ^ s)"

definition int_times_06 :: "nat \<Rightarrow> nat" where
  "int_times_06 n = round53 (round53 n * 5404319552844595) div 2 ^ 53"

text \<open>\<open>_matches_query\<close>\<close>

definition variants :: "ustr \<Rightarrow> ustr list" where
  "variants tok = tok # (case map_of TOKEN_SYNONYMS tok of None \<Rightarrow> [] | Some syns \<Rightarrow> syns)"

definition token_hit :: "ustr \<Rightarrow> ustr \<Rightarrow> bool" where
  "token_hit t tok = list_ex (\<lambda>v. v \<noteq> [] \<and> contains t v) (variants tok)"

fun count_hits :: "ustr \<Rightarrow> ustr list \<Rightarrow> nat" where
  "count_hits t [] = 0"
| "count_hits t (tok # toks) = (if token_hit t tok then 1 else 0) + count_hits t toks"

definition required_hits :: "nat \<Rightarrow> nat" where
  "required_hits n = (if n = 1 then 1 else if n = 2 then 2 else max 2 (int_times_06 n))"

definition matches_query :: "pylib \<Rightarrow> ustr \<Rightarrow> ustr list \<Rightarrow> bool" where
  "matches_query L title tokens =
     (if tokens = [] then True
      else
        let t = replace_char 1105 1077 (ulower L (strip L title)) in
        if t = [] then False
        else count_hits t tokens \<ge> required_hits (length tokens))"

section \<open>The tables for Latin and Cyrillic text\<close>

text \<open>
  One instance of the runtime's tables, for evaluating the functions on concrete texts: it
  has the whitespace characters of \<open>str.isspace\<close>, the ASCII digits, and the letters of
  Basic Latin and of the Cyrillic block U+0400 to U+045F with their case pairs. It is
  used only on texts of these characters and without \<open>&\<close>.
\<close>

definition lower0 :: "nat \<Rightarrow> nat" where
  "lower0 c =
     (if 65 \<le> c \<and> c \<le> 90 then c + 32
      else if 1040 \<le> c \<and> c \<le> 1071 then c + 32
      else if 1024 \<le> c \<and> c \<le> 1039 then c + 80
      else c)"

definition space0 :: "nat \<Rightarrow> bool" where
  "space0 c =
     ((9 \<le> c \<and> c \<le> 13) \<or> (28 \<le> c \<and> c \<le> 32) \<or> c = 133 \<or> c = 160 \<or> c = 5760
      \<or> (8192 \<le> c \<and> c \<le> 8202) \<or> c = 8232 \<or> c = 8233 \<or> c = 8239 \<or> c = 8287 \<or> c = 12288)"

definition digit0 :: "nat \<Rightarrow> bool" where
  "digit0 c = (48 \<le> c \<and> c \<le> 57)"

definition word0 :: "nat \<Rightarrow> bool" where
  "word0 c =
     (digit0 c \<or> (65 \<le> c \<and> c \<le> 90) \<or> c = 95 \<or> (97 \<le> c \<and> c \<le> 122)
      \<or> (1024 \<le> c \<and> c \<le> 1119))"

definition L0 :: pylib where
  "L0 = \<lparr> uspace = space0, udigit = digit0, udigit_value = (\<lambda>c. c - 48), uword = word0,
          ufold = (\<lambda>p c. lower0 c = lower0 p), ulower = map lower0, charrefs = (\<lambda>s. s),
          int_max_str_digits = Some 4300 \<rparr>"

section \<open>Constants of the search service\<close>

definition YANDEX_MAX_PAGES :: int where "YANDEX_MAX_PAGES = 10"
definition MAX_CACHE_ITEMS :: int where "MAX_CACHE_ITEMS = 200"
definition PER_SOURCE_LIMIT :: int where "PER_SOURCE_LIMIT = 20"
definition CACHE_TTL_SECONDS :: real where "CACHE_TTL_SECONDS = 10 * 60"
definition SLOW_SOURCES_TIMEOUT_SECONDS :: real where "SLOW_SOURCES_TIMEOUT_SECONDS = 8"
definition SLOW_SOURCES_TIMEOUT_SECONDS_PER_SOURCE :: real where
  "SLOW_SOURCES_TIMEOUT_SECONDS_PER_SOURCE = 60"

definition src_yandex :: ustr where "src_yandex = asc ''market.yandex.ru''"
definition src_mvideo :: ustr where "src_mvideo = asc ''mvideo.ru''"
definition src_citilink :: ustr where "src_citilink = asc ''citilink.ru''"
definition src_eldorado :: ustr where "src_eldorado = asc ''eldorado.ru''"
definition src_avito :: ustr where "src_avito = asc ''avito.ru''"
definition src_cdek :: ustr where "src_cdek = asc ''cdek.shopping''"
definition src_aliexpress :: ustr where "src_aliexpress = asc ''aliexpress.ru''"
definition src_xcom :: ustr where "src_xcom = asc ''xcom-shop.ru''"

definition default_sources :: "ustr list" where
  "default_sources = [src_yandex, src_mvideo, src_citilink, src_eldorado, src_avito,
     src_cdek, src_aliexpress, src_xcom]"

section \<open>Sources of a request\<close>

text \<open>
  \<open>_normalize_sources\<close>: no list, or an empty one, gives the eight default sources;
  otherwise every name is stripped and lowercased, empty names are dropped, duplicates are
  removed keeping the first occurrence, and an empty outcome again gives the defaults.
\<close>

fun unique_in_order :: "ustr list \<Rightarrow> ustr list \<Rightarrow> ustr list" where
  "unique_in_order seen [] = []"
| "unique_in_order seen (s # ss) =
     (if s \<in> set seen then unique_in_order seen ss
      else s # unique_in_order (s # seen) ss)"

definition normalize_sources :: "pylib \<Rightarrow> ustr list option \<Rightarrow> ustr list" where
  "normalize_sources L sources =
     (case sources of
        None \<Rightarrow> default_sources
      | Some [] \<Rightarrow> default_sources
      | Some ss \<Rightarrow>
          (let cleaned = filter (\<lambda>s. s \<noteq> []) (map (\<lambda>s. ulower L (strip L s)) ss);
               out = unique_in_order [] cleaned
           in if out = [] then default_sources else out))"

section \<open>The plan of \<open>search_products\<close>\<close>

text \<open>
  What \<open>search_products\<close> computes before it calls \<open>_ensure_cached\<close>. The argument
  \<open>st\<close> is \<open>float(settings.search_timeout_seconds)\<close>.
\<close>

record plan =
  sources_n :: "ustr list"
  explicit_sources :: bool
  per_source_target :: "int option"
  target :: int
  slow_timeout :: real
  wait_for_all :: bool

definition search_products_plan ::
  "pylib \<Rightarrow> real \<Rightarrow> ustr list option \<Rightarrow> int \<Rightarrow> int \<Rightarrow> bool \<Rightarrow> bool \<Rightarrow> plan" where
  "search_products_plan L st sources offset limit per_source partial =
     (let explicit0 = (sources \<noteq> None);
          sn = normalize_sources L sources;
          explicit = (if \<not> explicit0 \<and> length sn > 1 then True else explicit0);
          pst = (if per_source then Some (offset + limit) else None);
          tgt = (if per_source then min ((offset + limit) * int (length sn)) MAX_CACHE_ITEMS
                 else min (offset + limit) MAX_CACHE_ITEMS);
          slow0 = (if partial then SLOW_SOURCES_TIMEOUT_SECONDS
                   else (if per_source then SLOW_SOURCES_TIMEOUT_SECONDS_PER_SOURCE
                         else SLOW_SOURCES_TIMEOUT_SECONDS));
          slow = (if length sn = 1 then max st slow0 else slow0)
      in \<lparr> sources_n = sn, explicit_sources = explicit, per_source_target = pst,
           target = tgt, slow_timeout = slow, wait_for_all = (per_source \<and> \<not> partial) \<rparr>)"

section \<open>Items and the cache entry\<close>

text \<open>
  \<open>SearchItem\<close> (the field \<open>id\<close> is \<open>item_id\<close> here; the dataclass declares \<open>price: int\<close>)
  and \<open>SearchCacheEntry\<close> without its lock. \<open>seen\<close> and \<open>pending_sources\<close> are finite
  sets, \<open>source_limits\<close> is a dictionary.
\<close>

record item =
  item_id :: ustr
  title :: ustr
  price :: int
  thumbnail_url :: ustr
  product_url :: ustr
  merchant_name :: ustr
  merchant_logo_url :: ustr
  source :: ustr

record entry =
  expires_at :: real
  items :: "item list"
  seen :: "ustr fset"
  source_limits :: "ustr \<rightharpoonup> int"
  pending_sources :: "ustr fset"
  yandex_next_page :: int
  yandex_rs :: ustr
  yandex_exhausted :: bool

definition reset :: "real \<Rightarrow> entry \<Rightarrow> entry" where
  "reset now e =
     e\<lparr> expires_at := now + CACHE_TTL_SECONDS, items := [], seen := {||},
        source_limits := Map.empty, pending_sources := {||}, yandex_next_page := 1,
        yandex_rs := [], yandex_exhausted := False \<rparr>"

text \<open>\<open>_item_key\<close>: the source, a vertical bar (124) and the id.\<close>

definition item_key :: "item \<Rightarrow> ustr" where
  "item_key it = source it @ [124] @ item_id it"

text \<open>\<open>_DISPLAY_MERCHANT_NAMES\<close>; four of the names are Cyrillic.\<close>

definition DISPLAY_MERCHANT_NAMES :: "(ustr \<times> ustr) list" where
  "DISPLAY_MERCHANT_NAMES =
     [(asc ''market.yandex.ru'',
         [1071, 1085, 1076, 1077, 1082, 1089, 32, 1052, 1072, 1088, 1082, 1077, 1090]),
      (asc ''aliexpress.ru'', asc ''AliExpress''),
      (asc ''wildberries.ru'', asc ''Wildberries''),
      (asc ''cdek.shopping'', asc ''CDEK Shopping''),
      (asc ''citilink.ru'', [1057, 1080, 1090, 1080, 1083, 1080, 1085, 1082]),
      (asc ''xcom-shop.ru'', asc ''XCOM-SHOP''),
      (asc ''mvideo.ru'', [1052, 46, 1042, 1080, 1076, 1077, 1086]),
      (asc ''eldorado.ru'', [1069, 1083, 1100, 1076, 1086, 1088, 1072, 1076, 1086]),
      (asc ''dns-shop.ru'', asc ''DNS''),
      (asc ''avito.ru'', asc ''Avito''),
      (asc ''onlinetrade.ru'', asc ''Onlinetrade''),
      (asc ''ozon.ru'', asc ''Ozon'')]"

definition display_merchant_name :: "ustr \<Rightarrow> ustr" where
  "display_merchant_name src =
     (case map_of DISPLAY_MERCHANT_NAMES src of None \<Rightarrow> src | Some n \<Rightarrow> n)"

text \<open>
  The three assignments that both mutators make to an item before they look at its key:
  the title is cleaned (\<open>ali\<close> tells whether AliExpress titles get their own cleaning, as
  in \<open>_apply_provider_result\<close>), the price is normalized, an empty merchant name or one
  equal to the source is replaced by the display name.
\<close>

definition normalize_item :: "pylib \<Rightarrow> bool \<Rightarrow> item \<Rightarrow> item" where
  "normalize_item L ali it =
     (let it = it\<lparr> title := (if ali \<and> source it = src_aliexpress
                                then clean_ali_title L (title it)
                                else clean_title L (title it)) \<rparr>;
          it = it\<lparr> price := normalize_price L (PInt (price it)) \<rparr>
      in if merchant_name it = [] \<or> merchant_name it = source it
         then it\<lparr> merchant_name := display_merchant_name (source it) \<rparr> else it)"

text \<open>The two lines \<open>entry.seen.add(k); entry.items.append(item)\<close>.\<close>

definition append_item :: "item \<Rightarrow> entry \<Rightarrow> entry" where
  "append_item it e = e\<lparr> seen := finsert (item_key it) (seen e), items := items e @ [it] \<rparr>"

section \<open>Applying the result of a provider\<close>

text \<open>What a provider's task delivered: nothing yet, an exception, or a list of items.\<close>

datatype provider_res = RNone | RError | RItems "item list"

text \<open>The loop \<open>for item in res\<close> of \<open>_apply_provider_result\<close>.\<close>

fun add_items :: "pylib \<Rightarrow> ustr list \<Rightarrow> item list \<Rightarrow> entry \<Rightarrow> entry" where
  "add_items L tokens [] e = e"
| "add_items L tokens (it # its) e =
     (let it' = normalize_item L True it in
      if tokens \<noteq> [] \<and> \<not> matches_query L (title it') tokens then add_items L tokens its e
      else if item_key it' |\<in>| seen e then add_items L tokens its e
      else add_items L tokens its (append_item it' e))"

text \<open>
  \<open>_apply_provider_result\<close>; \<open>track_limits\<close>, \<open>explicit\<close> and \<open>tokens\<close> are the variables
  of the enclosing \<open>_ensure_cached\<close>.
\<close>

definition apply_provider_result ::
  "pylib \<Rightarrow> bool \<Rightarrow> bool \<Rightarrow> ustr list \<Rightarrow> ustr \<Rightarrow> int \<Rightarrow> int \<Rightarrow> provider_res \<Rightarrow> entry \<Rightarrow> entry" where
  "apply_provider_result L track_limits explicit tokens src requested_limit prev_limit res e =
     (case res of
        RNone \<Rightarrow> e
      | RError \<Rightarrow>
          (if track_limits
           then e\<lparr> source_limits := (source_limits e)(src \<mapsto> requested_limit) \<rparr> else e)
      | RItems its \<Rightarrow>
          add_items L tokens its
            (if its \<noteq> [] \<or> \<not> explicit
             then e\<lparr> source_limits := (source_limits e)(src \<mapsto> max prev_limit requested_limit) \<rparr>
             else e))"

text \<open>\<open>_apply_provider_result_async\<close>, which a late task runs under the entry's lock.\<close>

definition apply_provider_result_async ::
  "pylib \<Rightarrow> bool \<Rightarrow> bool \<Rightarrow> ustr list \<Rightarrow> ustr \<Rightarrow> int \<Rightarrow> int \<Rightarrow> provider_res \<Rightarrow> entry \<Rightarrow> entry" where
  "apply_provider_result_async L track_limits explicit tokens src requested_limit prev_limit res e =
     (let e' = apply_provider_result L track_limits explicit tokens src requested_limit prev_limit res e
      in e'\<lparr> pending_sources := pending_sources e' |-| {|src|} \<rparr>)"

section \<open>Filling from Yandex\<close>

text \<open>
  What one request for a page of Yandex Market gives: whether a body came back, the \<open>rs\<close>
  parameter of the final URL when it has one, and the items that the provider parses from
  the body. The web is a function from the page number and the \<open>rs\<close> sent to such an
  answer.
\<close>

record yandex_page =
  html_ok :: bool
  final_rs :: "ustr option"
  parsed :: "item list"

definition yandex_count :: "entry \<Rightarrow> int" where
  "yandex_count e = int (length (filter (\<lambda>it. source it = src_yandex) (items e)))"

text \<open>
  The loop \<open>for item in page_items\<close> of \<open>_fill_yandex\<close> with its two \<open>break\<close>s; the result
  is the entry and \<open>added\<close>.
\<close>

fun add_yandex_items :: "pylib \<Rightarrow> int \<Rightarrow> item list \<Rightarrow> int \<Rightarrow> nat \<Rightarrow> entry \<Rightarrow> entry \<times> nat" where
  "add_yandex_items L yandex_target [] current added e = (e, added)"
| "add_yandex_items L yandex_target (it # its) current added e =
     (let it' = normalize_item L False it in
      if item_key it' |\<in>| seen e then add_yandex_items L yandex_target its current added e
      else
        let e' = append_item it' e in
        if current + 1 \<ge> yandex_target then (e', Suc added)
        else if int (length (items e')) \<ge> MAX_CACHE_ITEMS then (e', Suc added)
        else add_yandex_items L yandex_target its (current + 1) (Suc added) e')"

text \<open>The filter of the parsed items by the tokens of the query.\<close>

definition yandex_page_items :: "pylib \<Rightarrow> ustr list \<Rightarrow> item list \<Rightarrow> item list" where
  "yandex_page_items L tokens parsed_items =
     (if tokens \<noteq> [] \<and> parsed_items \<noteq> [] then
        (if length tokens = 2
         then filter (\<lambda>it. matches_query L (title it) [tokens ! 0]
                          \<or> matches_query L (title it) [tokens ! 1]) parsed_items
         else filter (\<lambda>it. matches_query L (title it) tokens) parsed_items)
      else parsed_items)"

text \<open>
  One round of the \<open>while\<close> loop of \<open>_fill_yandex\<close>, entered with the loop condition true:
  the entry after the round, and whether the loop goes on to test its condition again
  (\<open>False\<close> is a \<open>break\<close>).
\<close>

definition yandex_round ::
  "pylib \<Rightarrow> (int \<Rightarrow> ustr \<Rightarrow> yandex_page) \<Rightarrow> ustr list \<Rightarrow> int \<Rightarrow> entry \<Rightarrow> entry \<times> bool" where
  "yandex_round L web tokens yandex_target e =
     (if yandex_next_page e > YANDEX_MAX_PAGES then (e\<lparr> yandex_exhausted := True \<rparr>, False)
      else
        let pg = web (yandex_next_page e) (yandex_rs e) in
        if \<not> html_ok pg then (e, False)
        else
          let e = (case final_rs pg of None \<Rightarrow> e | Some rs \<Rightarrow> if rs \<noteq> [] then e\<lparr> yandex_rs := rs \<rparr> else e);
              page_items = yandex_page_items L tokens (parsed pg);
              e = e\<lparr> yandex_next_page := yandex_next_page e + 1 \<rparr>
          in if page_items = [] then (e\<lparr> yandex_exhausted := True \<rparr>, False)
             else
               let r = add_yandex_items L yandex_target page_items (yandex_count e) 0 e in
               if snd r = 0 then ((fst r)\<lparr> yandex_exhausted := True \<rparr>, False)
               else (fst r, True))"

text \<open>
  The \<open>while\<close> loop. It ends: a round that does not break has moved \<open>yandex_next_page\<close>
  one page on, and a round entered beyond page 10 breaks.
\<close>

function fill_yandex_loop ::
  "pylib \<Rightarrow> (int \<Rightarrow> ustr \<Rightarrow> yandex_page) \<Rightarrow> ustr list \<Rightarrow> int \<Rightarrow> entry \<Rightarrow> entry" where
  "fill_yandex_loop L web tokens yandex_target e =
     (if yandex_count e < yandex_target \<and> int (length (items e)) < MAX_CACHE_ITEMS
      then (case yandex_round L web tokens yandex_target e of
              (e', go_on) \<Rightarrow> if go_on then fill_yandex_loop L web tokens yandex_target e' else e')
      else e)"
  by pat_completeness auto
termination
proof (relation "measure (\<lambda>(L, web, tokens, yandex_target, e).
    nat (YANDEX_MAX_PAGES + 1 - yandex_next_page e))", goal_cases)
  case 1
  show ?case by simp
next
  case (2 L web tokens yandex_target e e' go_on)
  have keep: "yandex_next_page (fst (add_yandex_items L yandex_target its cur added e0))
      = yandex_next_page e0" for its cur added e0
    by (induction its arbitrary: cur added e0) (auto simp: Let_def append_item_def)
  from 2 have "yandex_next_page e \<le> YANDEX_MAX_PAGES \<and> yandex_next_page e' = yandex_next_page e + 1"
    by (auto simp: yandex_round_def Let_def keep split: if_splits option.splits)
  then show ?case by simp
qed

declare fill_yandex_loop.simps [simp del]

text \<open>\<open>_fill_yandex\<close>; the tokens are those of the query.\<close>

definition fill_yandex ::
  "pylib \<Rightarrow> (int \<Rightarrow> ustr \<Rightarrow> yandex_page) \<Rightarrow> ustr \<Rightarrow> int \<Rightarrow> int option \<Rightarrow> entry \<Rightarrow> entry" where
  "fill_yandex L web query tgt per_source_limit e =
     fill_yandex_loop L web (query_tokens L query)
       (case per_source_limit of None \<Rightarrow> tgt | Some l \<Rightarrow> l) e"

section \<open>Fetching into the cache\<close>

text \<open>The sources that have a factory in \<open>_PROVIDER_FACTORIES\<close>.\<close>

definition PROVIDER_SOURCES :: "ustr list" where
  "PROVIDER_SOURCES =
     [asc ''cdek.shopping'', asc ''citilink.ru'', asc ''xcom-shop.ru'', asc ''mvideo.ru'',
      asc ''eldorado.ru'', asc ''aliexpress.ru'', asc ''wildberries.ru'', asc ''avito.ru'',
      asc ''dns-shop.ru'', asc ''onlinetrade.ru'', asc ''ozon.ru'']"

text \<open>
  What lies outside the process during one call: the answers of Yandex Market, what the
  task of each source delivers when it is done (\<open>RError\<close> for an exception), and which
  tasks are still running when the deadline \<open>slow_timeout\<close> passes.
\<close>

record world =
  web :: "int \<Rightarrow> ustr \<Rightarrow> yandex_page"
  outcome :: "ustr \<Rightarrow> provider_res"
  late :: "ustr \<Rightarrow> bool"

text \<open>The places where \<open>_ensure_cached\<close> returns, in the order of the source.\<close>

datatype ensure_exit =
  Hit_before_fetch | Hit_after_yandex | Nothing_remaining | No_other_source | No_limit
  | No_task | Fanned_out

text \<open>
  The loop that creates the tasks: for each source that gets one, the source, the limit
  requested and the limit recorded before.
\<close>

fun plan_tasks :: "bool \<Rightarrow> int \<Rightarrow> entry \<Rightarrow> ustr list \<Rightarrow> (ustr \<times> int \<times> int) list" where
  "plan_tasks track_limits per_source_limit e [] = []"
| "plan_tasks track_limits per_source_limit e (src # srcs) =
     (if src = src_yandex then plan_tasks track_limits per_source_limit e srcs
      else if src |\<in>| pending_sources e then plan_tasks track_limits per_source_limit e srcs
      else
        let prev_limit = (if track_limits
                          then (case source_limits e src of None \<Rightarrow> 0 | Some l \<Rightarrow> l) else 0) in
        if track_limits \<and> prev_limit \<ge> per_source_limit
        then plan_tasks track_limits per_source_limit e srcs
        else if src \<notin> set PROVIDER_SOURCES then plan_tasks track_limits per_source_limit e srcs
        else (src, per_source_limit, prev_limit) # plan_tasks track_limits per_source_limit e srcs)"

text \<open>The last loop of \<open>_ensure_cached\<close>, over the tasks and their results.\<close>

fun apply_results ::
  "pylib \<Rightarrow> bool \<Rightarrow> bool \<Rightarrow> ustr list \<Rightarrow> (ustr \<Rightarrow> provider_res) \<Rightarrow> (ustr \<times> int \<times> int) list \<Rightarrow> entry \<Rightarrow> entry" where
  "apply_results L track_limits explicit tokens results [] e = e"
| "apply_results L track_limits explicit tokens results ((src, requested_limit, prev_limit) # ts) e =
     apply_results L track_limits explicit tokens results ts
       (apply_provider_result L track_limits explicit tokens src requested_limit prev_limit
          (results src) e)"

text \<open>\<open>math.ceil(a / b)\<close> for the integers that reach it: \<open>0 < b\<close> and \<open>a\<close> at most 200.\<close>

definition ceil_div :: "int \<Rightarrow> int \<Rightarrow> int" where
  "ceil_div a b = - ((- a) div b)"

text \<open>
  \<open>_ensure_cached\<close>: where it returns, and the entry it leaves. The sources are those of
  \<open>search_products\<close>, which are distinct.
\<close>

definition ensure_cached ::
  "pylib \<Rightarrow> world \<Rightarrow> ustr \<Rightarrow> int \<Rightarrow> ustr list \<Rightarrow> bool \<Rightarrow> int option \<Rightarrow> bool \<Rightarrow> entry
   \<Rightarrow> ensure_exit \<times> entry" where
  "ensure_cached L w query tgt sources explicit pst wait_all e =
     (if int (length (items e)) \<ge> tgt \<and> \<not> explicit then (Hit_before_fetch, e)
      else
        let tokens = query_tokens L query;
            e = (if src_yandex \<in> set sources \<and> \<not> yandex_exhausted e
                 then fill_yandex L (web w) query tgt pst e else e)
        in
        if int (length (items e)) \<ge> tgt \<and> \<not> explicit then (Hit_after_yandex, e)
        else
          let remaining = max 0 (tgt - int (length (items e))) in
          if \<not> explicit \<and> remaining \<le> 0 then (Nothing_remaining, e)
          else
            let non_yandex_sources = filter (\<lambda>s. s \<noteq> src_yandex) sources in
            if explicit \<and> non_yandex_sources = [] then (No_other_source, e)
            else
              let per_source_limit =
                    (if explicit then
                       (case pst of
                          Some l \<Rightarrow> l
                        | None \<Rightarrow>
                            if tgt > PER_SOURCE_LIMIT * int (length non_yandex_sources)
                            then ceil_div tgt (int (length non_yandex_sources))
                            else PER_SOURCE_LIMIT)
                     else remaining)
              in
              if per_source_limit \<le> 0 then (No_limit, e)
              else
                let track_limits = (\<not> explicit \<or> pst \<noteq> None);
                    tasks = plan_tasks track_limits per_source_limit e sources
                in
                if tasks = [] then (No_task, e)
                else
                  let e = (if wait_all then e\<lparr> pending_sources := {||} \<rparr>
                           else e\<lparr> pending_sources :=
                                     fset_of_list (filter (late w) (map fst tasks)) \<rparr>);
                      results = (if wait_all then outcome w
                                 else (\<lambda>src. if late w src then RNone else outcome w src))
                  in (Fanned_out, apply_results L track_limits explicit tokens results tasks e))"

section \<open>The page that \<open>search_products\<close> returns\<close>

record search_meta =
  checked_sources :: int
  total_sources :: int
  meta_pending_sources :: "ustr list"

text \<open>The key of both sorts: \<open>(x.price if x.price else 1_000_000_000, x.source, x.id)\<close>.\<close>

definition rank_key :: "item \<Rightarrow> int \<times> ustr \<times> ustr" where
  "rank_key x = (if price x \<noteq> 0 then price x else 1000000000, source x, item_id x)"

definition yandex_has_pages :: "ustr list \<Rightarrow> entry \<Rightarrow> bool" where
  "yandex_has_pages sn e =
     (src_yandex \<in> set sn \<and> \<not> yandex_exhausted e \<and> yandex_next_page e \<le> YANDEX_MAX_PAGES)"

text \<open>
  The end of \<open>search_products\<close>, after \<open>entry.items.sort\<close>: the metadata and the two modes.
  In each mode \<open>has_more\<close> starts as \<open>False\<close> and is set by the tests in turn.
\<close>

definition page_meta :: "ustr list \<Rightarrow> entry \<Rightarrow> search_meta" where
  "page_meta sn e =
     \<lparr> checked_sources = max 0 (int (length sn) - int (fcard (pending_sources e))),
       total_sources = int (length sn),
       meta_pending_sources = sorted_list_of_fset (pending_sources e) \<rparr>"

definition page_per_source :: "ustr list \<Rightarrow> int \<Rightarrow> int \<Rightarrow> bool \<Rightarrow> entry \<Rightarrow> item list \<times> bool" where
  "page_per_source sn offset limit partial e =
     (let grouped = (\<lambda>src. filter (\<lambda>it. source it = src) (items e));
          page_items = concat (map (\<lambda>src. py_slice (grouped src) offset (offset + limit)) sn);
          has_more = list_ex (\<lambda>src. int (length (grouped src)) \<ge> offset + limit) sn;
          has_more = (if yandex_has_pages sn e then True else has_more);
          has_more = (if partial \<and> pending_sources e \<noteq> {||} then True else has_more)
      in (sort_key rank_key page_items, has_more))"

definition page_global :: "ustr list \<Rightarrow> int \<Rightarrow> int \<Rightarrow> bool \<Rightarrow> entry \<Rightarrow> item list \<times> bool" where
  "page_global sn offset limit partial e =
     (let page_items = py_slice (items e) offset (offset + limit);
          has_more = False;
          has_more = (if yandex_has_pages sn e then True else has_more);
          has_more = (if offset + int (length page_items) < int (length (items e))
                      then True else has_more);
          has_more = (if partial \<and> pending_sources e \<noteq> {||} then True else has_more)
      in (page_items, has_more))"

text \<open>
  \<open>search_products\<close> on the entry that the cache holds for the key, at the time \<open>now\<close>:
  the triple returned, and the entry as the call leaves it.
\<close>

definition search_products ::
  "pylib \<Rightarrow> world \<Rightarrow> real \<Rightarrow> real \<Rightarrow> ustr \<Rightarrow> int \<Rightarrow> int \<Rightarrow> ustr list option \<Rightarrow> bool \<Rightarrow> bool \<Rightarrow> entry
   \<Rightarrow> (item list \<times> bool \<times> search_meta) \<times> entry" where
  "search_products L w st now query offset limit sources per_source partial e =
     (let p = search_products_plan L st sources offset limit per_source partial;
          e = (if expires_at e \<le> now then reset now e else e);
          e = snd (ensure_cached L w query (target p) (sources_n p) (explicit_sources p)
                     (per_source_target p) (wait_for_all p) e);
          e = e\<lparr> items := sort_key rank_key (items e) \<rparr>;
          meta = page_meta (sources_n p) e;
          r = (if per_source then page_per_source (sources_n p) offset limit partial e
               else page_global (sources_n p) offset limit partial e)
      in ((fst r, snd r, meta), e))"

section \<open>Properties named by the specification, and concrete inputs\<close>

text \<open>The invariant of a cache entry: as many keys in \<open>seen\<close> as items.\<close>

definition entry_inv :: "entry \<Rightarrow> bool" where
  "entry_inv e = (fcard (seen e) = length (items e))"

text \<open>
  The flag \<open>has_more\<close> of the global-merge mode in the words of the specification, whose
  second test is \<open>offset + len > total\<close>.
\<close>

definition has_more_as_stated :: "ustr list \<Rightarrow> int \<Rightarrow> nat \<Rightarrow> bool \<Rightarrow> entry \<Rightarrow> bool" where
  "has_more_as_stated sn offset page_len partial e =
     ((src_yandex \<in> set sn \<and> \<not> yandex_exhausted e \<and> yandex_next_page e \<le> 10)
      \<or> offset + int page_len > int (length (items e))
      \<or> (partial \<and> pending_sources e \<noteq> {||}))"

text \<open>
  An entry that holds two items of one shop, not yet expired at time 0, and a world in
  which Yandex gives no body and every provider returns an empty list in time.
\<close>

definition item_a :: item where
  "item_a = \<lparr> item_id = asc ''a1'', title = asc ''Nokia 3310'', price = 100,
     thumbnail_url = [], product_url = [], merchant_name = asc ''M'', merchant_logo_url = [],
     source = src_mvideo \<rparr>"

definition item_b :: item where
  "item_b = \<lparr> item_id = asc ''a2'', title = asc ''Nokia 105'', price = 200,
     thumbnail_url = [], product_url = [], merchant_name = asc ''M'', merchant_logo_url = [],
     source = src_mvideo \<rparr>"

definition entry_ab :: entry where
  "entry_ab = \<lparr> expires_at = 600, items = [item_a, item_b],
     seen = {|item_key item_a, item_key item_b|}, source_limits = Map.empty,
     pending_sources = {||}, yandex_next_page = 1, yandex_rs = [], yandex_exhausted = False \<rparr>"

definition quiet_world :: world where
  "quiet_world = \<lparr> web = (\<lambda>p r. \<lparr> html_ok = False, final_rs = None, parsed = [] \<rparr>),
     outcome = (\<lambda>s. RItems []), late = (\<lambda>s. False) \<rparr>"

text \<open>The characters of the literal parts of a replacement template.\<close>

fun tpl_chars :: "tpl list \<Rightarrow> nat set" where
  "tpl_chars [] = {}"
| "tpl_chars (TLit w # ts) = set w \<union> tpl_chars ts"
| "tpl_chars (TGrp # ts) = tpl_chars ts"

text \<open>A pattern that matches nowhere in a text.\<close>

definition dead :: "pylib \<Rightarrow> ustr \<Rightarrow> rx \<Rightarrow> bool" where
  "dead L s r = (\<forall>st. ends r L s st = [])"


text \<open>
  Titles in which \<open>_clean_title\<close> finds nothing to rewrite except, possibly, a prefix: no
  \<open>&\<close>, comma, slash, semicolon, U+00A0 or invisible character, no whitespace other than
  single spaces between words, and no character that the Cyrillic capital U+0411 (the
  second letter of the unit that \<^verbatim>\<open>\s+GB\<close> rewrites) matches under \<open>re.IGNORECASE\<close>.
\<close>

definition settled :: "pylib \<Rightarrow> ustr \<Rightarrow> bool" where
  "settled L t =
     ((\<forall>c \<in> set t. c \<notin> set [38, 44, 47, 59, 160] \<and> c \<notin> set invisible_chars
          \<and> (uspace L c \<longrightarrow> c = 32) \<and> \<not> ufold L 1041 c)
      \<and> (t \<noteq> [] \<longrightarrow> hd t \<noteq> 32 \<and> last t \<noteq> 32)
      \<and> \<not> contains t [32, 32])"


definition two_long_words :: ustr where
  "two_long_words = replicate 100 97 @ 32 # replicate 100 98"


text \<open>
  The threshold of the token match in the words of the specification, with
  \<open>ceil(0.6 * n)\<close> for three tokens or more, and the match it defines: a token counts when
  one of its variants occurs in the lowercased title.
\<close>

definition required_as_stated :: "nat \<Rightarrow> nat" where
  "required_as_stated n = (if n = 1 then 1 else if n = 2 then 2 else max 2 ((3 * n + 4) div 5))"

definition matches_as_stated :: "pylib \<Rightarrow> ustr \<Rightarrow> ustr list \<Rightarrow> bool" where
  "matches_as_stated L ttl tokens =
     (required_as_stated (length tokens)
      \<le> length (filter (\<lambda>tok. \<exists>v \<in> set (variants tok).
            contains (replace_char 1105 1077 (ulower L (strip L ttl))) v) tokens))"

text \<open>Four tokens, of which the title \<open>ab cd\<close> contains two.\<close>

definition four_tokens :: "ustr list" where
  "four_tokens = [asc ''ab'', asc ''cd'', asc ''ef'', asc ''gh'']"

section \<open>Theorems\<close>

text \<open>
  C7. The deadline of the fan-out is 8 seconds when \<open>partial\<close> is set, 60 seconds when it
  is not and \<open>per_source\<close> is set, 8 seconds when neither is set; when the normalized
  source list has exactly one element the deadline is the larger of the configured search
  timeout and that value.
\<close>

theorem slow_timeout_selection:
  "slow_timeout (search_products_plan L st sources offset limit per_source partial) =
     (let base = (if partial then 8 else if per_source then 60 else 8)
      in if length (normalize_sources L sources) = 1 then max st base else base)"
  by (simp add: search_products_plan_def Let_def SLOW_SOURCES_TIMEOUT_SECONDS_def
      SLOW_SOURCES_TIMEOUT_SECONDS_PER_SOURCE_def)

subsection \<open>Evaluating the functions on the Latin and Cyrillic tables\<close>

lemmas rx_eval =
  seqs_def lits_def litsI_def Opt_def Star_def Plus_def sep_cls_def grouped_digits_def
  price_pat_def rub_pat_def is_word_at_def

lemmas re_eval =
  re_search_def match_at_def re_sub_def re_finditer_def collapse_ws_def digits_of_def
  group0_def group1_def

lemmas tables_eval =
  L0_def digit0_def space0_def word0_def lower0_def

lemmas text_eval =
  asc_def unescape_def replace_char_def strip_def strip_chars_def price_text_def Let_def

subsection \<open>Prices\<close>

text \<open>
  C1, as amended. For every value, \<open>_normalize_price\<close> returns an integer between 0 and
  1000000. It reads an integer from the value: the value itself for an \<open>int\<close>, the float
  truncated towards zero for a \<open>float\<close> (0 when \<open>int\<close> raises), \<open>_first_price(str(value))\<close>
  for any other object; \<open>None\<close> and a \<open>bool\<close> give 0 at once. The result is that integer
  when it lies between 1 and 1000000 (so 1 to 9 are returned unchanged) and 0 when it is
  at most 0 or above 1000000. Applying the function to its own result changes nothing.
\<close>

theorem normalize_price_range_idempotent:
  "0 \<le> normalize_price L v \<and> normalize_price L v \<le> 1000000
   \<and> normalize_price L PNone = 0
   \<and> normalize_price L (PBool b) = 0
   \<and> normalize_price L (PInt i) = (if 1 \<le> i \<and> i \<le> 1000000 then i else 0)
   \<and> normalize_price L (PFloat f)
       = (case int_of_float f of
            None \<Rightarrow> 0
          | Some n \<Rightarrow> if 1 \<le> n \<and> n \<le> 1000000 then n else 0)
   \<and> normalize_price L (PObj s)
       = (if 1 \<le> first_price L s \<and> first_price L s \<le> 1000000 then first_price L s else 0)
   \<and> normalize_price L (PInt (normalize_price L v)) = normalize_price L v"
  by (cases v) (auto simp: normalize_price_def price_gate_def split: option.splits)

text \<open>
  The float 1000000.5, which is \<open>2000001 * 2 ^ (- 1)\<close>, truncates to 1000000 and is
  returned as that: the bounds are tested on the integer read from the value.
\<close>

lemma normalize_price_float_above:
  "normalize_price L (PFloat (Finite 2000001 (- 1))) = 1000000"
  by (simp add: normalize_price_def price_gate_def int_of_float_def)

text \<open>
  C1 as stated fails: the integer 5 is returned as 5, which is neither 0 nor in the range
  from 10 to 1000000.
\<close>

theorem normalize_price_five:
  "normalize_price L0 (PInt 5) = 5 \<and> normalize_price L0 (PInt 5) \<notin> insert 0 {10..1000000}"
  by (simp add: normalize_price_def price_gate_def)

text \<open>
  C10. The text \<open>iPhone 15\<close> has no currency marker (the pattern \<open>rub_pat\<close> matches
  nowhere in it), and \<open>_first_price\<close> returns 15 for it.
\<close>

theorem first_price_without_currency:
  "re_search L0 rub_pat (asc ''iPhone 15'') = None \<and> first_price L0 (asc ''iPhone 15'') = 15"
  by (simp add: first_price_def price_near_currency_def py_int_def in_price_range_def
      rx_price_then_rub_def rx_rub_then_price_def rx_bare_number_def rx_short_number_def
      rx_eval re_eval tables_eval text_eval)

text \<open>
  C8. The text of the claim's example, \<open>1 000\<close>, a space, the rouble sign U+20BD, a slash
  and the three Cyrillic letters of "month" (1084, 1077, 1089): \<open>_prices_from_text\<close>
  returns the price 1000 for it, and the pattern \<open>_PRICE_CONTEXT_SKIP\<close> does not match
  the text.
\<close>

theorem prices_from_text_per_month:
  "prices_from_text L0 [49, 32, 48, 48, 48, 32, 8381, 47, 1084, 1077, 1089] = [1000]
   \<and> re_search L0 rx_context_skip [49, 32, 48, 48, 48, 32, 8381, 47, 1084, 1077, 1089] = None"
  by (simp add: prices_from_text_def rx_price_with_rub_def rx_context_skip_def py_int_def
      in_price_range_def rx_eval re_eval tables_eval text_eval)

subsection \<open>The cache entry\<close>

lemma inv_append:
  "entry_inv e \<Longrightarrow> item_key it |\<notin>| seen e \<Longrightarrow> entry_inv (append_item it e)"
  by (simp add: entry_inv_def append_item_def fcard_finsert_disjoint)

lemma inv_add_items: "entry_inv e \<Longrightarrow> entry_inv (add_items L tokens its e)"
  by (induction its arbitrary: e) (auto simp: Let_def inv_append)

lemma inv_other_fields [simp]:
  "entry_inv (e\<lparr> source_limits := m \<rparr>) = entry_inv e"
  "entry_inv (e\<lparr> pending_sources := ps \<rparr>) = entry_inv e"
  "entry_inv (e\<lparr> yandex_exhausted := x \<rparr>) = entry_inv e"
  "entry_inv (e\<lparr> yandex_next_page := n \<rparr>) = entry_inv e"
  "entry_inv (e\<lparr> yandex_rs := r \<rparr>) = entry_inv e"
  "entry_inv (e\<lparr> items := sort_key f (items e) \<rparr>) = entry_inv e"
  by (simp_all add: entry_inv_def)

lemma inv_apply:
  "entry_inv e \<Longrightarrow> entry_inv (apply_provider_result L tr ex tokens src rl pl res e)"
  by (cases res) (auto simp: apply_provider_result_def inv_add_items)

lemma inv_add_yandex:
  "entry_inv e \<Longrightarrow> entry_inv (fst (add_yandex_items L yt its cur added e))"
  by (induction its arbitrary: cur added e) (auto simp: Let_def inv_append)

lemma inv_round:
  "entry_inv e \<Longrightarrow> entry_inv (fst (yandex_round L wb tokens yt e))"
  by (auto simp: yandex_round_def Let_def inv_add_yandex split: option.splits)

lemma inv_loop:
  "entry_inv e \<Longrightarrow> entry_inv (fill_yandex_loop L wb tokens yt e)"
proof (induction L wb tokens yt e rule: fill_yandex_loop.induct)
  case (1 L wb tokens yt e)
  show ?case
  proof (cases "yandex_count e < yt \<and> int (length (items e)) < MAX_CACHE_ITEMS")
    case False
    then show ?thesis using 1 by (subst fill_yandex_loop.simps) auto
  next
    case True
    obtain e' g where r: "yandex_round L wb tokens yt e = (e', g)"
      by (cases "yandex_round L wb tokens yt e")
    have i: "entry_inv e'" using inv_round [OF 1(2), of L wb tokens yt] r by simp
    show ?thesis
    proof (cases g)
      case True
      with \<open>yandex_count e < yt \<and> int (length (items e)) < MAX_CACHE_ITEMS\<close> r i 1(1)
      show ?thesis by (subst fill_yandex_loop.simps) auto
    next
      case False
      with \<open>yandex_count e < yt \<and> int (length (items e)) < MAX_CACHE_ITEMS\<close> r i
      show ?thesis by (subst fill_yandex_loop.simps) auto
    qed
  qed
qed

lemma inv_apply_results:
  "entry_inv e \<Longrightarrow> entry_inv (apply_results L tr ex tokens results ts e)"
  by (induction ts arbitrary: e) (auto simp: inv_apply)

lemma inv_ensure:
  "entry_inv e \<Longrightarrow> entry_inv (snd (ensure_cached L w query tgt srcs ex pst wa e))"
  by (simp add: ensure_cached_def Let_def fill_yandex_def inv_loop inv_apply_results)

lemma inv_reset: "entry_inv (reset now e)"
  by (simp add: entry_inv_def reset_def)

lemma inv_search:
  "entry_inv e \<Longrightarrow>
   entry_inv (snd (search_products L w st now query offset limit sources per_source partial e))"
  by (simp add: search_products_def Let_def inv_ensure inv_reset)

text \<open>
  C6. The invariant \<open>|seen| = |items|\<close> holds after \<open>reset\<close>, and each mutator preserves it:
  \<open>_apply_provider_result\<close> (also when a late task runs it), \<open>_fill_yandex\<close>, and with them
  \<open>_ensure_cached\<close> and a whole call of \<open>search_products\<close>, reset and sort included.
\<close>

theorem seen_items_invariant:
  "entry_inv (reset now e)
   \<and> (entry_inv e \<longrightarrow> entry_inv (apply_provider_result L tr ex tokens src rl pl res e))
   \<and> (entry_inv e \<longrightarrow> entry_inv (apply_provider_result_async L tr ex tokens src rl pl res e))
   \<and> (entry_inv e \<longrightarrow> entry_inv (fill_yandex L wb query tgt pst e))
   \<and> (entry_inv e \<longrightarrow> entry_inv (snd (ensure_cached L w query tgt srcs ex pst wa e)))
   \<and> (entry_inv e \<longrightarrow>
        entry_inv (snd (search_products L w st t query offset limit sources per_source partial e)))"
  by (simp add: inv_reset inv_apply apply_provider_result_async_def Let_def fill_yandex_def
      inv_loop inv_ensure inv_search)

theorem seen_items_invariant_witness:
  "entry_inv entry_ab
   \<and> entry_inv (apply_provider_result L0 False True [] src_mvideo 20 0 (RItems [item_a]) entry_ab)
   \<and> entry_inv (fill_yandex L0 (web quiet_world) [] 10 None entry_ab)
   \<and> entry_inv (snd (search_products L0 quiet_world 35 0 [] 0 1 (Some [src_mvideo]) False False
        entry_ab))"
proof -
  have k: "item_key item_a \<noteq> item_key item_b"
    by (simp add: item_key_def item_a_def item_b_def asc_def)
  have h: "entry_inv entry_ab"
    by (simp add: entry_inv_def entry_ab_def fcard_finsert_disjoint k)
  show ?thesis
    using h seen_items_invariant [where e = entry_ab and L = L0 and tr = False and ex = True
        and tokens = "[]" and src = src_mvideo and rl = 20 and pl = 0 and res = "RItems [item_a]"
        and wb = "web quiet_world" and query = "[]" and tgt = 10 and pst = None
        and w = quiet_world and st = 35 and t = 0 and offset = 0 and limit = 1
        and sources = "Some [src_mvideo]" and per_source = False and partial = False]
    by simp
qed

subsection \<open>The page of the global-merge mode\<close>

lemma sources_mvideo:
  "src_mvideo \<noteq> src_yandex" "src_yandex \<noteq> src_mvideo" "src_mvideo \<in> set PROVIDER_SOURCES"
  by (simp_all add: src_mvideo_def src_yandex_def PROVIDER_SOURCES_def asc_def)

lemma normalize_sources_mvideo: "normalize_sources L0 (Some [src_mvideo]) = [src_mvideo]"
  by (simp add: normalize_sources_def src_mvideo_def tables_eval text_eval)

lemma query_tokens_empty: "query_tokens L0 [] = []"
proof -
  have a: "strip L0 [] = []" by (simp add: tables_eval text_eval)
  have b: "re_sub L0 (Plus (Ch (CNot (COr CWord CSpace)))) [TLit [32]] [] = []"
    by (simp add: rx_eval re_eval tables_eval text_eval)
  have c: "collapse_ws L0 [] = []" by (simp add: rx_eval re_eval tables_eval text_eval)
  have d: "ulower L0 [] = []" by (simp add: L0_def)
  show ?thesis by (simp add: query_tokens_def Let_def a b c d replace_char_def)
qed

lemma fields_ab:
  "items entry_ab = [item_a, item_b]" "expires_at entry_ab = 600"
  "pending_sources entry_ab = {||}" "source_limits entry_ab = Map.empty"
  "yandex_exhausted entry_ab = False" "yandex_next_page entry_ab = 1"
  by (simp_all add: entry_ab_def)

lemma ensure_cached_ab:
  "ensure_cached L0 quiet_world [] 1 [src_mvideo] True None False entry_ab = (Fanned_out, entry_ab)"
  by (simp add: ensure_cached_def Let_def query_tokens_empty sources_mvideo fields_ab
      PER_SOURCE_LIMIT_def quiet_world_def apply_provider_result_def)

lemma rank_ab: "rank_key item_a \<le> rank_key item_b"
  by (simp add: rank_key_def item_a_def item_b_def)

lemma plan_mvideo:
  "search_products_plan L0 35 (Some [src_mvideo]) 0 1 False False
   = \<lparr> sources_n = [src_mvideo], explicit_sources = True, per_source_target = None,
       target = 1, slow_timeout = 35, wait_for_all = False \<rparr>"
  by (simp add: search_products_plan_def normalize_sources_mvideo MAX_CACHE_ITEMS_def
      SLOW_SOURCES_TIMEOUT_SECONDS_def)

lemma search_products_ab:
  "search_products L0 quiet_world 35 0 [] 0 1 (Some [src_mvideo]) False False entry_ab
   = (([item_a], True,
       \<lparr> checked_sources = 1, total_sources = 1, meta_pending_sources = [] \<rparr>), entry_ab)"
  by (simp add: search_products_def Let_def plan_mvideo ensure_cached_ab rank_ab
      sorted_list_of_fset.rep_eq fields_ab page_global_def page_meta_def py_slice_def
      slice_bound_def yandex_has_pages_def sources_mvideo)

text \<open>
  C3, as amended. In global-merge mode \<open>search_products\<close> returns the slice
  \<open>items[offset:offset+limit]\<close> of the entry's item list, which it has sorted by the rank
  key, and \<open>has_more\<close> is true exactly when Yandex is among the sources, not exhausted and
  at page 10 or before, or \<open>offset + len(page) < len(items)\<close>, or \<open>partial\<close> is set and a
  source is pending.
\<close>

lemma global_page_projections:
  "fst (fst (search_products L w st now query offset limit sources False partial e))
     = py_slice (items (snd (search_products L w st now query offset limit sources False partial e)))
         offset (offset + limit)
   \<and> fst (snd (fst (search_products L w st now query offset limit sources False partial e)))
     = ((src_yandex \<in> set (normalize_sources L sources)
           \<and> \<not> yandex_exhausted (snd (search_products L w st now query offset limit sources False partial e))
           \<and> yandex_next_page (snd (search_products L w st now query offset limit sources False partial e)) \<le> 10)
        \<or> offset + int (length (fst (fst (search_products L w st now query offset limit sources False partial e))))
             < int (length (items (snd (search_products L w st now query offset limit sources False partial e))))
        \<or> (partial \<and> pending_sources (snd (search_products L w st now query offset limit sources False partial e)) \<noteq> {||}))
   \<and> sorted (map rank_key (items (snd (search_products L w st now query offset limit sources False partial e))))"
  by (auto simp: search_products_def Let_def page_global_def yandex_has_pages_def
      YANDEX_MAX_PAGES_def search_products_plan_def)

theorem global_page_and_has_more:
  assumes "search_products L w st now query offset limit sources False partial e
           = ((page, has_more, meta), e')"
  shows "page = py_slice (items e') offset (offset + limit)
     \<and> sorted (map rank_key (items e'))
     \<and> has_more =
         ((src_yandex \<in> set (normalize_sources L sources) \<and> \<not> yandex_exhausted e'
             \<and> yandex_next_page e' \<le> 10)
          \<or> offset + int (length page) < int (length (items e'))
          \<or> (partial \<and> pending_sources e' \<noteq> {||}))"
  using global_page_projections [of L w st now query offset limit sources partial e]
  by (simp only: assms fst_conv snd_conv)

theorem global_page_and_has_more_witness:
  "search_products L0 quiet_world 35 0 [] 0 1 (Some [src_mvideo]) False False entry_ab
     = (([item_a], True,
         \<lparr> checked_sources = 1, total_sources = 1, meta_pending_sources = [] \<rparr>), entry_ab)
   \<and> [item_a] = py_slice (items entry_ab) 0 (0 + 1)
   \<and> sorted (map rank_key (items entry_ab))
   \<and> 0 + int (length [item_a]) < int (length (items entry_ab))"
  using global_page_and_has_more [OF search_products_ab] search_products_ab
  by (simp add: fields_ab normalize_sources_mvideo sources_mvideo py_slice_def slice_bound_def)

text \<open>
  C3 as stated fails: with two items cached, offset 0 and limit 1, the call returns
  \<open>has_more = True\<close>, and the three tests of the claim, the second being
  \<open>offset + len(page) > total\<close>, are all false.
\<close>

theorem has_more_as_stated_differs:
  "fst (snd (fst (search_products L0 quiet_world 35 0 [] 0 1 (Some [src_mvideo]) False False
      entry_ab)))
   \<noteq> has_more_as_stated (normalize_sources L0 (Some [src_mvideo])) 0
       (length (fst (fst (search_products L0 quiet_world 35 0 [] 0 1 (Some [src_mvideo]) False
          False entry_ab))))
       False
       (snd (search_products L0 quiet_world 35 0 [] 0 1 (Some [src_mvideo]) False False entry_ab))"
  by (simp add: search_products_ab normalize_sources_mvideo has_more_as_stated_def
      sources_mvideo fields_ab)

subsection \<open>Explicit sources\<close>

lemma fst_if: "fst (if c then (a, x) else r) = (if c then a else fst r)"
  by simp

lemma exits_explicit:
  "fst (ensure_cached L w query tgt srcs True pst wa e)
     \<notin> {Hit_before_fetch, Hit_after_yandex, Nothing_remaining}"
  by (simp add: ensure_cached_def Let_def fst_if)

lemma first_exit:
  "(fst (ensure_cached L w query tgt srcs ex pst wa e) = Hit_before_fetch)
     = (\<not> ex \<and> tgt \<le> int (length (items e)))"
  by (simp add: ensure_cached_def Let_def fst_if)

lemma plan_explicit:
  "1 < length (normalize_sources L sources) \<Longrightarrow>
   explicit_sources (search_products_plan L st sources offset limit per_source partial)"
  by (simp add: search_products_plan_def Let_def)

lemma plan_always_explicit:
  "explicit_sources (search_products_plan L st sources offset limit per_source partial)"
  by (cases sources) (simp_all add: search_products_plan_def Let_def normalize_sources_def
      default_sources_def)

text \<open>
  C9. When the normalized source list has more than one element, \<open>search_products\<close> passes
  \<open>explicit_sources = True\<close> to \<open>_ensure_cached\<close>, which then leaves through none of the
  three returns that depend on the cache already holding \<open>target\<close> items. For every
  request, whatever the number of its sources: \<open>_ensure_cached\<close> takes its first return
  exactly when \<open>explicit_sources\<close> is false and the entry holds at least \<open>target\<close> items,
  and the flag that \<open>search_products\<close> passes is true unless the request names no sources
  and its normalized list has at most one element. (A request without sources gets the
  eight defaults, so the flag is in fact always true: \<open>plan_always_explicit\<close>.)
\<close>

theorem several_sources_are_explicit:
  "(1 < length (normalize_sources L sources) \<longrightarrow>
      explicit_sources (search_products_plan L st sources offset limit per_source partial)
      \<and> fst (ensure_cached L w query
            (target (search_products_plan L st sources offset limit per_source partial))
            (sources_n (search_products_plan L st sources offset limit per_source partial))
            (explicit_sources (search_products_plan L st sources offset limit per_source partial))
            (per_source_target (search_products_plan L st sources offset limit per_source partial))
            (wait_for_all (search_products_plan L st sources offset limit per_source partial)) e)
          \<notin> {Hit_before_fetch, Hit_after_yandex, Nothing_remaining})
   \<and> (fst (ensure_cached L w query tgt srcs ex pst wa e) = Hit_before_fetch)
       = (\<not> ex \<and> tgt \<le> int (length (items e)))
   \<and> (explicit_sources (search_products_plan L st sources offset limit per_source partial)
        \<or> (sources = None \<and> length (normalize_sources L sources) \<le> 1))
   \<and> fst (ensure_cached L w query
          (target (search_products_plan L st sources offset limit per_source partial))
          (sources_n (search_products_plan L st sources offset limit per_source partial))
          (explicit_sources (search_products_plan L st sources offset limit per_source partial))
          (per_source_target (search_products_plan L st sources offset limit per_source partial))
          (wait_for_all (search_products_plan L st sources offset limit per_source partial)) e)
        \<noteq> Hit_before_fetch"
  using exits_explicit [of L w query _ _ _ _ e] first_exit [of L w query tgt srcs ex pst wa e]
    plan_always_explicit [of L st sources offset limit per_source partial]
  by simp

text \<open>
  The theorem at a request without sources (eight defaults), at the request for the single
  source \<open>mvideo.ru\<close>, whose flag is true as well, and at a direct call of
  \<open>_ensure_cached\<close> with a false flag, which does take the first return.
\<close>

theorem several_sources_are_explicit_witness:
  "1 < length (normalize_sources L0 None)
   \<and> explicit_sources (search_products_plan L0 35 None 0 10 False False)
   \<and> explicit_sources (search_products_plan L0 35 (Some [src_mvideo]) 0 1 False False)
   \<and> fst (ensure_cached L0 quiet_world [] 0 [] False None False entry_ab) = Hit_before_fetch"
proof -
  have h: "1 < length (normalize_sources L0 None)"
    by (simp add: normalize_sources_def default_sources_def)
  show ?thesis
    using h several_sources_are_explicit [where L = L0 and sources = None and st = 35
        and offset = 0 and limit = 10 and per_source = False and partial = False
        and w = quiet_world and query = "[]" and e = entry_ab and tgt = 0 and srcs = "[]"
        and ex = False and pst = None and wa = False]
      several_sources_are_explicit [where L = L0 and sources = "Some [src_mvideo]" and st = 35
        and offset = 0 and limit = 1 and per_source = False and partial = False
        and w = quiet_world and query = "[]" and e = entry_ab and tgt = 0 and srcs = "[]"
        and ex = False and pst = None and wa = False]
    by (simp add: fields_ab)
qed

subsection \<open>Facts about the matcher\<close>

lemma rep_fail: "f st = [] \<Longrightarrow> rep f n k m mx st = (if m \<le> k then [st] else [])"
  by (cases n) simp_all

lemma match_at_start: "match_at L r s b = Some m \<Longrightarrow> fst m = b"
  by (auto simp: match_at_def split: list.splits)

lemma search_from_Some:
  "search_from L r s n i = Some m \<Longrightarrow>
     i \<le> fst m \<and> fst m \<le> i + n \<and> match_at L r s (fst m) = Some m
     \<and> (\<forall>j. i \<le> j \<and> j < fst m \<longrightarrow> match_at L r s j = None)"
proof (induction n arbitrary: i)
  case 0
  then show ?case using match_at_start [of L r s i m] by auto
next
  case (Suc n)
  show ?case
  proof (cases "match_at L r s i")
    case None
    with Suc.prems have "search_from L r s n (Suc i) = Some m" by simp
    from Suc.IH [OF this]
    have a: "Suc i \<le> fst m" "fst m \<le> Suc i + n" "match_at L r s (fst m) = Some m"
      and b: "\<And>j. Suc i \<le> j \<Longrightarrow> j < fst m \<Longrightarrow> match_at L r s j = None"
      by auto
    have "match_at L r s j = None" if "i \<le> j" "j < fst m" for j
    proof (cases "j = i")
      case True
      with None show ?thesis by simp
    next
      case False
      with that have "Suc i \<le> j" by simp
      from b [OF this that(2)] show ?thesis .
    qed
    with a show ?thesis by auto
  next
    case (Some m')
    with Suc.prems have "m' = m" by simp
    with Some match_at_start [of L r s i m] show ?thesis by auto
  qed
qed


lemma set_group1: "set (group1 s m) \<subseteq> set s"
  by (auto simp: group1_def split: option.splits dest: in_set_takeD in_set_dropD)

lemma set_expand: "set (expand t s m) \<subseteq> set s \<union> tpl_chars t"
  using set_group1 [of s m] by (induction t s m rule: expand.induct) auto

lemma set_sub_from: "set (sub_from L r t s n i) \<subseteq> set s \<union> tpl_chars t"
proof (induction n arbitrary: i)
  case 0
  show ?case by (auto dest: in_set_dropD)
next
  case (Suc n)
  show ?case
  proof (cases "search_from L r s (length s - i) i")
    case None
    then show ?thesis by (auto dest: in_set_dropD)
  next
    case (Some m)
    have a: "set (take (fst m - i) (drop i s)) \<subseteq> set s"
      by (auto dest: in_set_takeD in_set_dropD)
    have b: "fst m < length s \<Longrightarrow> s ! fst m \<in> set s" by simp
    show ?thesis
      using Some a b set_expand [of t s m] Suc.IH [of "fst (snd m)"] Suc.IH [of "Suc (fst m)"]
      by auto
  qed
qed

lemma set_re_sub: "set (re_sub L r t s) \<subseteq> set s \<union> tpl_chars t"
  unfolding re_sub_def by (rule set_sub_from)


lemma drop_split3:
  assumes "i \<le> b" "b \<le> e" "e \<le> length s"
  shows "take (b - i) (drop i s) @ take (e - b) (drop b s) @ drop e s = drop i s"
proof -
  have "take (e - b) (drop b s) @ drop e s = drop b s"
    using assms by (metis append_take_drop_id drop_drop le_add_diff_inverse2)
  moreover have "take (b - i) (drop i s) @ drop b s = drop i s"
    using assms by (metis append_take_drop_id drop_drop le_add_diff_inverse2)
  ultimately show ?thesis by simp
qed

text \<open>A substitution that replaces every match by the matched text changes nothing.\<close>

lemma sub_from_same:
  assumes "\<And>b m. match_at L r s b = Some m \<Longrightarrow>
             b < fst (snd m) \<and> fst (snd m) \<le> length s
             \<and> expand t s m = take (fst (snd m) - b) (drop b s)"
  shows "sub_from L r t s n i = drop i s"
proof (induction n arbitrary: i)
  case 0
  show ?case by simp
next
  case (Suc n)
  show ?case
  proof (cases "search_from L r s (length s - i) i")
    case None
    then show ?thesis by simp
  next
    case (Some m)
    from search_from_Some [OF Some] have a: "i \<le> fst m" "match_at L r s (fst m) = Some m"
      by auto
    from assms [OF a(2)] have b: "fst m < fst (snd m)" "fst (snd m) \<le> length s"
      "expand t s m = take (fst (snd m) - fst m) (drop (fst m) s)" by auto
    have "sub_from L r t s (Suc n) i
        = take (fst m - i) (drop i s) @ take (fst (snd m) - fst m) (drop (fst m) s)
          @ drop (fst (snd m)) s"
      using Some b Suc.IH [of "fst (snd m)"] by simp
    also have "\<dots> = drop i s"
      using drop_split3 [of i "fst m" "fst (snd m)" s] a b by simp
    finally show ?thesis .
  qed
qed

lemma re_sub_same:
  assumes "\<And>b m. match_at L r s b = Some m \<Longrightarrow>
             b < fst (snd m) \<and> fst (snd m) \<le> length s
             \<and> expand t s m = take (fst (snd m) - b) (drop b s)"
  shows "re_sub L r t s = s"
  unfolding re_sub_def using sub_from_same [of L r s t "Suc (length s)" 0] assms by simp

lemma re_sub_dead: "dead L s r \<Longrightarrow> re_sub L r t s = s"
  by (rule re_sub_same) (simp add: dead_def match_at_def)

lemma dead_Ch: "(\<And>c. c \<in> set s \<Longrightarrow> \<not> cls_match L k c) \<Longrightarrow> dead L s (Ch k)"
  by (simp add: dead_def)

lemma dead_Seq1: "dead L s a \<Longrightarrow> dead L s (Seq a b)"
  by (simp add: dead_def)

lemma dead_Seq2: "dead L s b \<Longrightarrow> dead L s (Seq a b)"
  by (auto simp: dead_def)

lemma dead_Alt: "dead L s a \<Longrightarrow> dead L s b \<Longrightarrow> dead L s (Alt a b)"
  by (simp add: dead_def)

lemma dead_Grp: "dead L s a \<Longrightarrow> dead L s (Grp a)"
  by (simp add: dead_def)

lemma dead_Plus: "dead L s a \<Longrightarrow> dead L s (Plus a)"
  by (simp add: dead_def Plus_def rep_fail)

lemma dead_litsI:
  "p \<in> set w \<Longrightarrow> (\<And>c. c \<in> set s \<Longrightarrow> \<not> ufold L p c) \<Longrightarrow> dead L s (litsI w)"
proof (induction w)
  case Nil
  then show ?case by simp
next
  case (Cons q w)
  have e: "litsI (q # w) = Seq (Ch (CLitI q)) (litsI w)" by (simp add: litsI_def)
  show ?case
  proof (cases "p = q")
    case True
    have "dead L s (Ch (CLitI q))" using Cons.prems(2) True by (intro dead_Ch) simp
    then show ?thesis unfolding e by (rule dead_Seq1)
  next
    case False
    with Cons have "dead L s (litsI w)" by simp
    then show ?thesis unfolding e by (rule dead_Seq2)
  qed
qed

lemma dead_lits:
  "p \<in> set w \<Longrightarrow> p \<notin> set s \<Longrightarrow> dead L s (lits w)"
proof (induction w)
  case Nil
  then show ?case by simp
next
  case (Cons q w)
  have e: "lits (q # w) = Seq (Ch (CLit q)) (lits w)" by (simp add: lits_def)
  show ?case
  proof (cases "p = q")
    case True
    have "dead L s (Ch (CLit q))" using Cons.prems(2) True by (intro dead_Ch) auto
    then show ?thesis unfolding e by (rule dead_Seq1)
  next
    case False
    with Cons have "dead L s (lits w)" by simp
    then show ?thesis unfolding e by (rule dead_Seq2)
  qed
qed

lemma dead_seqs: "r \<in> set rs \<Longrightarrow> dead L s r \<Longrightarrow> dead L s (seqs rs)"
proof (induction rs)
  case Nil
  then show ?case by simp
next
  case (Cons q rs)
  have e: "seqs (q # rs) = Seq q (seqs rs)" by (simp add: seqs_def)
  show ?case
  proof (cases "r = q")
    case True
    with Cons.prems show ?thesis unfolding e by (intro dead_Seq1) simp
  next
    case False
    with Cons have "dead L s (seqs rs)" by simp
    then show ?thesis unfolding e by (rule dead_Seq2)
  qed
qed

subsection \<open>Titles\<close>






lemma contains_set: "contains t v \<Longrightarrow> set v \<subseteq> set t"
proof (induction t)
  case Nil
  then show ?case by simp
next
  case (Cons a t)
  from Cons.prems have "prefix v (a # t) \<or> contains t v" by simp
  then show ?case
  proof
    assume "prefix v (a # t)"
    then show ?thesis by (rule set_mono_prefix)
  next
    assume "contains t v"
    from Cons.IH [OF this] show ?thesis by auto
  qed
qed

lemma rep_first:
  "rep f (Suc n) 0 (Suc 0) None st = concat (map (rep f n (Suc 0) (Suc 0) None) (f st))"
  by (simp only: rep.simps option.case if_True) simp


lemma match_at_spaces:
  assumes w1: "\<And>c. c \<in> set s \<Longrightarrow> uspace L c \<Longrightarrow> c = 32"
    and w2: "\<And>j. Suc j < length s \<Longrightarrow> s ! j = 32 \<Longrightarrow> s ! Suc j \<noteq> 32"
    and m: "match_at L (Plus (Ch CSpace)) s b = Some m"
  shows "m = (b, Suc b, None) \<and> b < length s \<and> s ! b = 32"
proof -
  let ?f = "ends (Ch CSpace) L s"
  have e: "ends (Plus (Ch CSpace)) L s (b, None) = rep ?f (length s) 0 1 None (b, None)"
    by (simp add: Plus_def)
  show ?thesis
  proof (cases "b < length s \<and> uspace L (s ! b)")
    case False
    then have "?f (b, None) = []" by auto
    then have "ends (Plus (Ch CSpace)) L s (b, None) = []" unfolding e by (simp add: rep_fail)
    with m show ?thesis by (simp add: match_at_def)
  next
    case True
    then have sb: "s ! b = 32" using w1 [of "s ! b"] by simp
    obtain n where n: "length s = Suc n" using True by (cases "length s") auto
    have next_fail: "?f (Suc b, None) = []"
    proof (cases "Suc b < length s")
      case False
      then show ?thesis by simp
    next
      case True
      from w2 [OF True sb] have "s ! Suc b \<noteq> 32" .
      with w1 [of "s ! Suc b"] True have "\<not> uspace L (s ! Suc b)" by auto
      then show ?thesis by simp
    qed
    have fb: "?f (b, None) = [(Suc b, None)]" using True by simp
    have r1: "rep ?f n (Suc 0) (Suc 0) None (Suc b, None) = [(Suc b, None)]"
      using rep_fail [where f = "?f" and st = "(Suc b, None)" and n = n and k = "Suc 0"
          and m = "Suc 0" and mx = None] next_fail by simp
    have "rep ?f (Suc n) 0 (Suc 0) None (b, None)
          = concat (map (rep ?f n (Suc 0) (Suc 0) None) (?f (b, None)))"
      by (rule rep_first)
    also have "\<dots> = [(Suc b, None)]" by (simp only: fb) (simp only: r1 list.map concat.simps append_Nil2)
    finally have "ends (Plus (Ch CSpace)) L s (b, None) = [(Suc b, None)]"
      unfolding e n by (simp only: One_nat_def)
    with m True sb show ?thesis by (auto simp: match_at_def)
  qed
qed

lemma collapse_ws_same:
  assumes w1: "\<And>c. c \<in> set s \<Longrightarrow> uspace L c \<Longrightarrow> c = 32"
    and w2: "\<And>j. Suc j < length s \<Longrightarrow> s ! j = 32 \<Longrightarrow> s ! Suc j \<noteq> 32"
  shows "collapse_ws L s = s"
  unfolding collapse_ws_def
proof (rule re_sub_same)
  fix b m
  assume a: "match_at L (Plus (Ch CSpace)) s b = Some m"
  have mm: "m = (b, Suc b, None) \<and> b < length s \<and> s ! b = 32"
    by (rule match_at_spaces [OF w1 w2 a])
  then have m1: "m = (b, Suc b, None)" and m2: "b < length s" and m3: "s ! b = 32"
    by blast+
  have t: "take (Suc b - b) (drop b s) = [s ! b]"
    using m2 by (simp add: take_Suc_conv_app_nth)
  have x: "expand [TLit [32]] s m = [32]" by simp
  show "b < fst (snd m) \<and> fst (snd m) \<le> length s
      \<and> expand [TLit [32]] s m = take (fst (snd m) - b) (drop b s)"
    unfolding x unfolding m1 using m2 m3 t by simp
qed


lemma contains_pair:
  "Suc j < length t \<Longrightarrow> t ! j = a \<Longrightarrow> t ! Suc j = b \<Longrightarrow> contains t [a, b]"
proof (induction t arbitrary: j)
  case Nil
  then show ?case by simp
next
  case (Cons c cs)
  show ?case
  proof (cases j)
    case 0
    with Cons.prems obtain d ds where "cs = d # ds" by (cases cs) auto
    with 0 Cons.prems show ?thesis by simp
  next
    case (Suc j')
    with Cons.prems have "Suc j' < length cs" "cs ! j' = a" "cs ! Suc j' = b" by auto
    from Cons.IH [OF this] show ?thesis by simp
  qed
qed

lemma strip_chars_same:
  assumes "t \<noteq> [] \<Longrightarrow> \<not> p (hd t) \<and> \<not> p (last t)"
  shows "strip_chars p t = t"
proof (cases "t = []")
  case True
  then show ?thesis by (simp add: strip_chars_def)
next
  case False
  with assms have a: "\<not> p (hd t)" "\<not> p (last t)" by auto
  from False a(1) have "dropWhile p t = t" by (cases t) auto
  moreover from False a(2) have "dropWhile p (rev t) = rev t"
    by (cases "rev t") (auto simp: hd_rev [symmetric] simp del: hd_rev)
  ultimately show ?thesis by (simp add: strip_chars_def)
qed

lemma dead_prefix:
  assumes "\<And>c. c \<in> set t \<Longrightarrow> \<not> ufold L 1092 c"
  shows "dead L t rx_prefix"
proof -
  have a: "dead L t (litsI w_smartfon)"
    by (rule dead_litsI [where p = 1092]) (simp_all add: w_smartfon_def assms)
  have d: "dead L t (litsI w_telefon)"
    by (rule dead_litsI [where p = 1092]) (simp_all add: w_telefon_def assms)
  have b: "dead L t (seqs [litsI w_mobilnyi, Ch (CLit 32), litsI w_telefon])"
    by (rule dead_seqs [OF _ d]) simp
  have c: "dead L t (seqs [litsI w_sotovyi, Ch (CLit 32), litsI w_telefon])"
    by (rule dead_seqs [OF _ d]) simp
  have "dead L t (Grp (Alt (litsI w_smartfon)
               (Alt (seqs [litsI w_mobilnyi, Ch (CLit 32), litsI w_telefon])
               (Alt (seqs [litsI w_sotovyi, Ch (CLit 32), litsI w_telefon])
                    (litsI w_telefon)))))"
    by (intro dead_Grp dead_Alt a b c d)
  then show ?thesis unfolding rx_prefix_def by (rule dead_seqs [rotated]) simp
qed

lemma body_settled:
  assumes "settled L t"
  shows "clean_title_body L t = re_sub L rx_prefix [] t"
proof -
  from assms have ch: "\<And>c. c \<in> set t \<Longrightarrow> c \<notin> set [38, 44, 47, 59, 160] \<and> c \<notin> set invisible_chars
          \<and> (uspace L c \<longrightarrow> c = 32) \<and> \<not> ufold L 1041 c"
    and ends: "t \<noteq> [] \<Longrightarrow> hd t \<noteq> 32 \<and> last t \<noteq> 32"
    and pair: "\<not> contains t [32, 32]"
    by (auto simp: settled_def)
  define u where "u = re_sub L rx_prefix [] t"
  have su: "set u \<subseteq> set t" using set_re_sub [of L rx_prefix "[]" t] by (simp add: u_def)
  have s1: "unescape L t = t" using ch by (auto simp: unescape_def)
  have s2: "replace_char 160 32 t = t" using ch by (auto simp: replace_char_def intro: map_idI)
  have s3: "re_sub L (Ch (CIn invisible_chars)) [] t = t"
    by (rule re_sub_dead, rule dead_Ch) (use ch in auto)
  have s4: "strip_chars (\<lambda>c. c \<in> set [32, 44, 59, 160]) t = t"
  proof (rule strip_chars_same)
    assume ne: "t \<noteq> []"
    then have "hd t \<in> set t" "last t \<in> set t" by auto
    with ch [of "hd t"] ch [of "last t"] ends [OF ne]
    show "\<not> hd t \<in> set [32, 44, 59, 160] \<and> \<not> last t \<in> set [32, 44, 59, 160]" by auto
  qed
  have s5: "collapse_ws L t = t"
  proof (rule collapse_ws_same)
    fix c assume "c \<in> set t" "uspace L c"
    with ch show "c = 32" by auto
  next
    fix j assume "Suc j < length t" "t ! j = 32"
    with pair contains_pair [of j t 32 32] show "t ! Suc j \<noteq> 32" by auto
  qed
  have s7: "re_sub L rx_used [TLit (32 # w_used)] u = u"
  proof (rule re_sub_dead)
    have "dead L u (Ch (CLit 47))" by (rule dead_Ch) (use ch su in auto)
    then show "dead L u rx_used" unfolding rx_used_def by (rule dead_seqs [rotated]) simp
  qed
  have s8: "re_sub L rx_comma_mem [TLit [32], TGrp] u = u"
  proof (rule re_sub_dead)
    have "dead L u (Ch (CLit 44))" by (rule dead_Ch) (use ch su in auto)
    then show "dead L u rx_comma_mem" unfolding rx_comma_mem_def by (rule dead_seqs [rotated]) simp
  qed
  have s9: "re_sub L rx_gb [TLit [32, 1043, 1041]] u = u"
  proof (rule re_sub_dead)
    have "dead L u (litsI [1043, 1041])"
      by (rule dead_litsI [where p = 1041]) (use ch su in auto)
    then show "dead L u rx_gb" unfolding rx_gb_def by (rule dead_seqs [rotated]) simp
  qed
  have s10: "\<not> contains u w_used_open"
  proof
    assume "contains u w_used_open"
    from contains_set [OF this] have "47 \<in> set u" by (auto simp: w_used_open_def)
    with su ch [of 47] show False by auto
  qed
  show ?thesis
    by (simp only: clean_title_body_def Let_def s1 s2 s3 s4 s5 u_def [symmetric] s7 s8 s9 s10) simp
qed

lemma match_prefix_at_start: "match_at L rx_prefix s b = Some m \<Longrightarrow> b = 0"
  by (cases "b = 0") (simp_all add: match_at_def rx_prefix_def seqs_def)

lemma no_prefix_same:
  assumes "match_at L rx_prefix t 0 = None"
  shows "re_sub L rx_prefix [] t = t"
proof (rule re_sub_same)
  fix b m
  assume a: "match_at L rx_prefix t b = Some m"
  from match_prefix_at_start [OF a] a assms
  show "b < fst (snd m) \<and> fst (snd m) \<le> length t
      \<and> expand [] t m = take (fst (snd m) - b) (drop b t)" by simp
qed












lemma dead_match_at: "dead L s r \<Longrightarrow> match_at L r s b = None"
  by (simp add: dead_def match_at_def)








lemma contains_pairD:
  "contains t [a, b] \<Longrightarrow> \<exists>j. Suc j < length t \<and> t ! j = a \<and> t ! Suc j = b"
proof (induction t)
  case Nil
  then show ?case by simp
next
  case (Cons c cs)
  from Cons.prems have "prefix [a, b] (c # cs) \<or> contains cs [a, b]" by simp
  then show ?case
  proof
    assume "prefix [a, b] (c # cs)"
    then obtain ds where "c # cs = a # b # ds" by (auto simp: prefix_def)
    then show ?thesis by (intro exI [of _ 0]) auto
  next
    assume "contains cs [a, b]"
    from Cons.IH [OF this] obtain j where "Suc j < length cs" "cs ! j = a" "cs ! Suc j = b"
      by blast
    then show ?thesis by (intro exI [of _ "Suc j"]) simp
  qed
qed

lemma settled_two_long_words: "settled L0 two_long_words"
proof -
  have "\<not> contains two_long_words [32, 32]"
  proof
    assume "contains two_long_words [32, 32]"
    from contains_pairD [OF this] obtain j where j: "Suc j < length two_long_words"
      "two_long_words ! j = 32" "two_long_words ! Suc j = 32" by blast
    then show False
      by (auto simp: two_long_words_def nth_append nth_Cons' split: if_splits)
  qed
  then show ?thesis
    by (simp add: settled_def two_long_words_def invisible_chars_def tables_eval)
qed

lemma no_prefix_two_long_words: "match_at L0 rx_prefix two_long_words 0 = None"
  by (rule dead_match_at, rule dead_prefix) (auto simp: two_long_words_def tables_eval)

lemma body_two_long_words: "clean_title_body L0 two_long_words = two_long_words"
  using body_settled [OF settled_two_long_words] no_prefix_same [OF no_prefix_two_long_words]
  by simp

lemma take_two_long_words: "take 160 two_long_words = replicate 100 97 @ 32 # replicate 59 98"
  by (simp add: two_long_words_def)

lemma w2:
  "160 < length (clean_title_body L0 two_long_words)
   \<and> 32 \<in> set (take 160 (clean_title_body L0 two_long_words))"
  by (simp add: body_two_long_words take_two_long_words) (simp add: two_long_words_def)











subsection \<open>The token match\<close>

lemma bitlen_upper: "p < 2 ^ bitlen p"
proof (induction p rule: bitlen.induct)
  case (1 n)
  show ?case
  proof (cases "n = 0")
    case True
    then show ?thesis by (subst bitlen.simps) simp
  next
    case False
    from 1 [OF False] have "n div 2 < 2 ^ bitlen (n div 2)" .
    then have "n < 2 * 2 ^ bitlen (n div 2)" by linarith
    with False show ?thesis by (subst bitlen.simps) simp
  qed
qed

lemma bitlen_lower: "0 < p \<Longrightarrow> 2 ^ (bitlen p - 1) \<le> p"
proof (induction p rule: bitlen.induct)
  case (1 n)
  from 1(2) have nz: "n \<noteq> 0" by simp
  have e: "bitlen n = Suc (bitlen (n div 2))" using nz by (subst bitlen.simps) simp
  show ?case
  proof (cases "n div 2 = 0")
    case True
    then have "bitlen (n div 2) = 0" by (subst bitlen.simps) simp
    with e 1(2) show ?thesis by simp
  next
    case False
    then have "0 < n div 2" by simp
    from 1(1) [OF nz this] have a: "2 ^ (bitlen (n div 2) - 1) \<le> n div 2" .
    have "0 < bitlen (n div 2)" using False by (subst bitlen.simps) simp
    then have "(2::nat) ^ bitlen (n div 2) = 2 * 2 ^ (bitlen (n div 2) - 1)"
      by (cases "bitlen (n div 2)") simp_all
    with a have "2 ^ bitlen (n div 2) \<le> 2 * (n div 2)" by simp
    also have "\<dots> \<le> n" by simp
    finally show ?thesis by (simp add: e)
  qed
qed

lemma bitlen_le: "p < 2 ^ k \<Longrightarrow> bitlen p \<le> k"
proof (rule ccontr)
  assume a: "p < 2 ^ k" and "\<not> bitlen p \<le> k"
  then have b: "k \<le> bitlen p - 1" by simp
  have "0 < p" using \<open>\<not> bitlen p \<le> k\<close> by (cases "p = 0") (simp_all add: bitlen.simps)
  from bitlen_lower [OF this] have d: "2 ^ (bitlen p - 1) \<le> p" .
  have c: "(2::nat) ^ k \<le> 2 ^ (bitlen p - 1)" using b by (rule power_increasing) simp
  from c d have "2 ^ k \<le> p" by (rule order_trans)
  with a show False by linarith
qed

lemma bitlen_gt: "2 ^ k \<le> p \<Longrightarrow> k < bitlen p"
proof (rule ccontr)
  assume a: "2 ^ k \<le> p" and "\<not> k < bitlen p"
  then have "bitlen p \<le> k" by simp
  then have c: "(2::nat) ^ bitlen p \<le> 2 ^ k" by (rule power_increasing) simp
  from c a have "2 ^ bitlen p \<le> p" by (rule order_trans)
  with bitlen_upper [of p] show False by linarith
qed


text \<open>
  \<open>int(n * 0.6)\<close> in double arithmetic is \<open>floor(3 * n / 5)\<close>: the double nearest to 0.6 lies
  below it by a fifth of \<open>2 ^ (- 53)\<close>, which rounding to 53 bits absorbs when \<open>3 * n / 5\<close>
  is an integer and which cannot reach the next integer otherwise.
\<close>

lemma int_times_06_floor:
  assumes n: "n < 2 ^ 50"
  shows "int_times_06 n = 3 * n div 5"
proof -
  define d :: nat where "d = 5404319552844595"
  define P :: nat where "P = 2 ^ 53"
  have Pv: "P = 9007199254740992" by (simp add: P_def)
  have d5: "5 * d + 1 = 3 * P" by (simp add: d_def Pv)
  have n50: "n < 1125899906842624" using n by simp
  have nP: "n < P" using n50 by (simp add: Pv)
  have rn: "round53 n = n" using nP by (simp add: round53_def Pv)
  define p where "p = n * d"
  have e0: "int_times_06 n = round53 p div P"
    by (simp add: int_times_06_def rn p_def d_def P_def)
  define T where "T = 3 * n div 5"
  define rho where "rho = 3 * n mod 5"
  have tr: "3 * n = 5 * T + rho" and rho5: "rho < 5" by (simp_all add: T_def rho_def)
  define X where "X = T * P"
  have key: "5 * p + n = 5 * X + rho * P"
  proof -
    have "5 * p + n = n * (5 * d + 1)" by (simp add: p_def algebra_simps)
    also have "\<dots> = n * (3 * P)" by (simp only: d5)
    also have "\<dots> = (3 * n) * P" by simp
    also have "\<dots> = (5 * T + rho) * P" by (simp only: tr)
    also have "\<dots> = 5 * X + rho * P" by (simp add: X_def algebra_simps)
    finally show ?thesis .
  qed
  have rhoP: "rho * P \<le> 4 * P" using rho5 by simp
  have goal: "round53 p div P = T" if "X \<le> round53 p" "round53 p < X + P"
  proof (rule div_nat_eqI)
    show "P * T \<le> round53 p" using that(1) by (simp add: X_def mult.commute)
    show "round53 p < P * Suc T" using that(2) by (simp add: X_def mult.commute)
  qed
  show ?thesis
  proof (cases "p < P")
    case True
    then have r: "round53 p = p" by (simp add: round53_def Pv)
    have "n \<le> 1"
    proof (rule ccontr)
      assume "\<not> n \<le> 1"
      then have "2 \<le> n" by simp
      then have "2 * d \<le> n * d" by (rule mult_le_mono1)
      with True show False by (simp add: p_def d_def Pv)
    qed
    then have "n = 0 \<or> n = 1" by auto
    then have "p div P = 3 * n div 5" by (auto simp: p_def d_def Pv)
    with e0 r show ?thesis by simp
  next
    case False
    then have Pp: "P \<le> p" by simp
    define s where "s = bitlen p - 53"
    have b1: "53 < bitlen p" using bitlen_gt [of 53 p] Pp by (simp add: P_def)
    have bs: "bitlen p = 53 + s" using b1 by (simp add: s_def)
    have dP: "d < P" by (simp add: d_def Pv)
    have "p < 1125899906842624 * P"
      unfolding p_def using n50 dP by (intro mult_strict_mono) simp_all
    also have "\<dots> = 2 ^ 103" by (simp add: Pv)
    finally have "bitlen p \<le> 103" by (rule bitlen_le)
    with bs have s50: "s \<le> 50" by simp
    have s1: "1 \<le> s" using b1 by (simp add: s_def)
    define E :: nat where "E = 2 ^ s"
    define h :: nat where "h = 2 ^ (s - 1)"
    define K :: nat where "K = 2 ^ (53 - s)"
    have Eh: "E = 2 * h" using s1 by (cases s) (simp_all add: E_def h_def)
    have E0: "0 < E" by (simp add: E_def)
    have PK: "P = K * E" using s50 by (simp add: P_def K_def E_def power_add [symmetric])
    have pE: "p < P * E" using bitlen_upper [of p] by (simp add: bs power_add P_def E_def)
    have "h \<le> 2 ^ 49" unfolding h_def using s50 by (intro power_increasing) simp_all
    then have h49: "h \<le> 562949953421312" by simp
    define q where "q = p div E"
    define r where "r = p mod E"
    have pq: "p = q * E + r" and rE: "r < E" using E0 by (simp_all add: q_def r_def)
    have R: "round53 p = (if h < r \<or> (r = h \<and> odd q) then q + 1 else q) * E"
      using False by (simp add: round53_def Let_def s_def E_def h_def q_def r_def P_def)
    have Rlow: "q * E \<le> round53 p" by (simp add: R)
    have Rup: "round53 p \<le> p + h"
    proof (cases "h < r \<or> (r = h \<and> odd q)")
      case True
      then have "h \<le> r" by auto
      moreover have "round53 p = q * E + E" by (simp only: R if_P [OF True]) simp
      ultimately show ?thesis using pq Eh by linarith
    next
      case False
      have "round53 p = q * E" by (simp only: R if_not_P [OF False])
      with pq show ?thesis by linarith
    qed
    have upper: "round53 p < X + P"
    proof -
      have "5 * round53 p \<le> 5 * p + 5 * h" using Rup by simp
      also have "\<dots> \<le> 5 * X + rho * P + 5 * h" using key by linarith
      also have "\<dots> \<le> 5 * X + 4 * P + 5 * h" using rhoP by simp
      also have "\<dots> < 5 * X + 5 * P" using h49 by (simp add: Pv)
      finally show ?thesis by simp
    qed
    have XE: "X = (T * K) * E" by (simp add: X_def PK mult.assoc)
    have lower: "X \<le> round53 p"
    proof (cases "rho = 0")
      case False
      then have "P \<le> rho * P" by simp
      with key nP have "X \<le> p" by linarith
      then have "(T * K) * E \<le> p" by (simp only: XE)
      then have "T * K \<le> q" unfolding q_def using E0 by (simp add: less_eq_div_iff_mult_less_eq)
      then have "(T * K) * E \<le> q * E" by (rule mult_le_mono1)
      with Rlow show ?thesis unfolding XE by linarith
    next
      case True
      define m where "m = X - p"
      have n5: "n = 5 * m" and Xpm: "X = p + m" using key True by (simp_all add: m_def)
      have T3: "T = 3 * m" using tr True n5 by simp
      define Y where "Y = m * P"
      have XY: "X = 3 * Y" by (simp add: X_def T3 Y_def)
      have mY: "m \<le> Y" by (simp add: Y_def Pv)
      have m0: "0 < m"
      proof (rule ccontr)
        assume "\<not> 0 < m"
        then have "p = 0" by (simp add: n5 p_def)
        with Pp show False by (simp add: Pv)
      qed
      have mh: "m < h"
      proof (rule ccontr)
        assume "\<not> m < h"
        then have "h \<le> m" by simp
        then have "h * P \<le> Y" unfolding Y_def by (rule mult_le_mono1)
        moreover have "P * E = 2 * (h * P)" by (simp add: Eh)
        ultimately show False using pE Xpm XY mY by linarith
      qed
      define a where "a = T * K"
      have Xa: "X = a * E" by (simp add: XE a_def)
      have a0: "0 < a" using Xa Xpm m0 by (cases a) simp_all
      have aE: "a * E = (a - 1) * E + E" using a0 by (cases a) simp_all
      have qa: "q = a - 1"
        unfolding q_def
      proof (rule div_nat_eqI)
        have "(a - 1) * E \<le> p" using aE Xa Xpm mh Eh by linarith
        then show "E * (a - 1) \<le> p" by (simp add: mult.commute)
        have "p < a * E" using Xa Xpm m0 by linarith
        then show "p < E * Suc (a - 1)" using a0 by (simp add: mult.commute)
      qed
      have "p = (a - 1) * E + r" using pq by (simp only: qa)
      then have "r + m = E" using aE Xa Xpm by linarith
      with mh Eh have "h < r" by linarith
      then have "round53 p = (q + 1) * E" by (simp add: R)
      also have "\<dots> = X" using a0 by (simp only: qa Xa) simp
      finally show ?thesis by simp
    qed
    from goal [OF lower upper] e0 show ?thesis by (simp add: T_def)
  qed
qed


lemma count_hits_filter: "count_hits t tokens = length (filter (token_hit t) tokens)"
  by (induction tokens) simp_all

lemma token_hit_iff:
  "token_hit t = (\<lambda>tok. \<exists>v \<in> set (variants tok). v \<noteq> [] \<and> contains t v)"
  by (rule ext) (simp add: token_hit_def list_ex_iff)

lemma required_hits_floor:
  "n < 2 ^ 50 \<Longrightarrow>
   required_hits n = (if n = 1 then 1 else if n = 2 then 2 else max 2 (3 * n div 5))"
  by (simp only: required_hits_def int_times_06_floor)

text \<open>
  C2, as amended. For every title and every non-empty token list (of fewer than
  \<open>2 ^ 50\<close> tokens, far beyond what a Python list can hold), \<open>_matches_query\<close> holds exactly
  when the number of tokens of which a non-empty variant (the token or one of its synonyms)
  occurs in the stripped, lowercased title with U+0451 replaced by U+0435 is at least
  \<open>required\<close>: 1 for one token, 2 for two tokens, \<open>max(2, floor(0.6 * n))\<close> for \<open>n\<close> of three or
  more, since \<open>int(len(tokens) * 0.6)\<close> truncates.
\<close>

theorem matches_query_threshold:
  assumes "tokens \<noteq> []" and "length tokens < 2 ^ 50"
  shows "matches_query L ttl tokens
     = ((if length tokens = 1 then 1 else if length tokens = 2 then 2
         else max 2 (3 * length tokens div 5))
        \<le> length (filter (\<lambda>tok. \<exists>v \<in> set (variants tok). v \<noteq> []
              \<and> contains (replace_char 1105 1077 (ulower L (strip L ttl))) v) tokens))"
proof -
  let ?t = "replace_char 1105 1077 (ulower L (strip L ttl))"
  let ?req = "if length tokens = 1 then 1 else if length tokens = 2 then 2
         else max 2 (3 * length tokens div 5)"
  have hits: "count_hits ?t tokens
      = length (filter (\<lambda>tok. \<exists>v \<in> set (variants tok). v \<noteq> [] \<and> contains ?t v) tokens)"
    by (simp only: count_hits_filter token_hit_iff)
  have req: "required_hits (length tokens) = ?req"
    using required_hits_floor [OF assms(2)] .
  have pos: "0 < ?req" by (simp add: max_def)
  show ?thesis
  proof (cases "?t = []")
    case True
    have "filter (\<lambda>tok. \<exists>v \<in> set (variants tok). v \<noteq> [] \<and> contains ?t v) tokens = []"
      by (simp add: True)
    with pos assms(1) True show ?thesis by (simp add: matches_query_def Let_def)
  next
    case False
    with assms(1) have "matches_query L ttl tokens
        = (required_hits (length tokens) \<le> count_hits ?t tokens)"
      by (simp add: matches_query_def Let_def)
    then show ?thesis by (simp only: hits req)
  qed
qed

lemma title_ab_cd: "replace_char 1105 1077 (ulower L0 (strip L0 (asc ''ab cd''))) = asc ''ab cd''"
  by (simp add: tables_eval text_eval)

lemma variants_four:
  "variants (asc ''ab'') = [asc ''ab'']" "variants (asc ''cd'') = [asc ''cd'']"
  "variants (asc ''ef'') = [asc ''ef'']" "variants (asc ''gh'') = [asc ''gh'']"
  by (simp_all add: variants_def TOKEN_SYNONYMS_def asc_def w_aifon_def w_aipad_def w_eppl_def
      w_epl_def w_samsung_def w_syaomi_def w_huavei_def w_realmi_def)

lemma hits_ab_cd:
  "contains (asc ''ab cd'') (asc ''ab'')" "contains (asc ''ab cd'') (asc ''cd'')"
  "\<not> contains (asc ''ab cd'') (asc ''ef'')" "\<not> contains (asc ''ab cd'') (asc ''gh'')"
  by (simp_all add: asc_def)

lemma matches_four: "matches_query L0 (asc ''ab cd'') four_tokens"
proof -
  have r: "required_hits 4 = 2" using required_hits_floor [of 4] by simp
  have c: "count_hits (asc ''ab cd'') four_tokens = 2"
    by (simp add: four_tokens_def token_hit_def variants_four hits_ab_cd) (simp add: asc_def)
  have ne: "asc ''ab cd'' \<noteq> []" by (simp add: asc_def)
  have f: "four_tokens \<noteq> []" "length four_tokens = 4" by (simp_all add: four_tokens_def)
  show ?thesis
    by (simp only: matches_query_def Let_def title_ab_cd) (simp add: ne c f r)
qed

text \<open>The theorem at four tokens, where the threshold is 2.\<close>

theorem matches_query_threshold_witness:
  "four_tokens \<noteq> [] \<and> length four_tokens < 2 ^ 50
   \<and> matches_query L0 (asc ''ab cd'') four_tokens
   \<and> max 2 (3 * length four_tokens div 5) = 2"
proof -
  have a: "four_tokens \<noteq> []" "length four_tokens = 4" by (simp_all add: four_tokens_def)
  have b: "length four_tokens < 2 ^ 50" by (simp add: a)
  have ne: "asc ''ab'' \<noteq> []" "asc ''cd'' \<noteq> []" by (simp_all add: asc_def)
  have "matches_query L0 (asc ''ab cd'') four_tokens"
    unfolding matches_query_threshold [OF a(1) b] title_ab_cd
    by (simp add: four_tokens_def variants_four hits_ab_cd ne)
  with a b show ?thesis by simp
qed

text \<open>
  C2 as stated fails: with four tokens the claim requires \<open>ceil(2.4) = 3\<close> hits, the code
  requires \<open>int(2.4) = 2\<close>, and the title \<open>ab cd\<close> with its two hits matches.
\<close>

theorem matches_as_stated_differs:
  "matches_query L0 (asc ''ab cd'') four_tokens
   \<and> \<not> matches_as_stated L0 (asc ''ab cd'') four_tokens
   \<and> required_as_stated (length four_tokens) = 3"
  using matches_four
  by (simp add: matches_as_stated_def required_as_stated_def title_ab_cd)
     (simp add: four_tokens_def variants_four hits_ab_cd)

end
